theory Spec2Isabelle
  imports Complex_Main
begin

section \<open>The BestOf engine of PyDTNN (pydtnn/utils/best\_of.py)\<close>

text \<open>
  The module holds two classes: \<open>_BestOfExecution\<close>, a node of the execution tree, and
  \<open>BestOf\<close>, a callable that dispatches to one of several alternatives, times it and
  eventually keeps the fastest one for every problem size.

  Conventions of the embedding.
  \<^item> Python objects are mutable and shared, so both classes live in an explicit store
    (\<open>world\<close>): execution nodes in \<open>heap\<close>, addressed by a natural number (the root is
    address 0), the mutable attributes of every \<open>BestOf\<close> instance in \<open>bestofs\<close>,
    addressed by the instance's identity. The attributes that \<open>__init__\<close> assigns and
    no method ever writes again (name, alternatives, classifier, rounds, stages, pruning
    parameters) form the record \<open>BestOf\<close>, which is passed as \<open>self\<close>.
  \<^item> A \<open>defaultdict\<close> is a total function that starts at the value of its factory.
    The inner dictionary of \<open>_blocked_by\<close> is kept as an association list, because
    \<open>is_blocked\<close> walks its values.
  \<^item> Exceptions are values: a call returns the world it leaves behind together with
    \<open>Inl error\<close> or \<open>Inr output\<close>; what was mutated before the raise stays mutated.
  \<^item> The alternatives are code outside the engine. A callable is a name of type \<open>'f\<close>,
    and what calling it does is the parameter \<open>invoke\<close>: any transformer of the world,
    which covers alternatives that call other \<open>BestOf\<close> instances (or this one) again.
  \<^item> \<open>timer()\<close> reads the field \<open>clock\<close>. A time is the real number a finite float64
    denotes; \<open>None\<close> of type \<open>real option\<close> stands for the \<open>nan\<close> that \<open>np.median\<close>
    returns on an empty list (every comparison with it is false). Where the code computes
    with floats the result is rounded, so these operations are not the real ones: they are
    taken from the parameter \<open>rt\<close>, as is \<open>int(...)\<close>.
  \<^item> The call stack that \<open>traceback.extract_stack\<close> returns is the parameter
    \<open>current_execution_id\<close> of the call.
\<close>

subsection \<open>Python values and list operations\<close>

datatype error = AssertionError | IndexError | TypeError | ValueError | OverflowError

text \<open>What the interpreter and numpy compute on the values the engine hands them.
  \<open>py_int\<close> is \<open>int(x)\<close> on a positional argument, which converts or raises. The other
  four are the float64 operations that round: the mean of two numbers (the even case of
  \<open>np.median\<close>), \<open>np.sum\<close>, the product and the difference. They are parameters of the
  model; nothing is assumed about them. Comparisons of floats are exact and are the
  comparisons of the reals.\<close>

record 'a runtime =
  py_int :: "'a \<Rightarrow> error + int"
  np_mean2 :: "real \<Rightarrow> real \<Rightarrow> real"
  np_sum :: "real list \<Rightarrow> real"
  float_mul :: "real \<Rightarrow> real \<Rightarrow> real"
  float_sub :: "real \<Rightarrow> real \<Rightarrow> real"

text \<open>The second component of an alternative: a function, or the list of the functions
  of the stages of a pipeline.\<close>

datatype 'f callee = Method 'f | Pipeline "'f list"

text \<open>\<open>xs[i]\<close> and \<open>xs[i] = v\<close> share the position they address: \<open>i\<close> itself from the
  front, \<open>len(xs) + i\<close> for a negative \<open>i\<close>; outside the list both raise.\<close>

definition py_position :: "'x list \<Rightarrow> int \<Rightarrow> nat option" where
  "py_position xs i =
     (if 0 \<le> i \<and> i < int (length xs) then Some (nat i)
      else if i < 0 \<and> - int (length xs) \<le> i then Some (nat (int (length xs) + i))
      else None)"

definition py_getitem :: "'x list \<Rightarrow> int \<Rightarrow> error + 'x" where
  "py_getitem xs i = (case py_position xs i of None \<Rightarrow> Inl IndexError | Some j \<Rightarrow> Inr (xs ! j))"

definition py_setitem :: "'x list \<Rightarrow> int \<Rightarrow> 'x \<Rightarrow> error + 'x list" where
  "py_setitem xs i v =
     (case py_position xs i of None \<Rightarrow> Inl IndexError | Some j \<Rightarrow> Inr (xs[j := v]))"

text \<open>\<open>xs.index(v)\<close>: the first position holding \<open>v\<close>.\<close>

fun py_index :: "'x list \<Rightarrow> 'x \<Rightarrow> nat option" where
  "py_index [] v = None"
| "py_index (x # xs) v = (if x = v then Some 0 else map_option Suc (py_index xs v))"

text \<open>Comparisons and the product of floats, with \<open>None\<close> as \<open>nan\<close>.\<close>

fun float_lt :: "real option \<Rightarrow> real option \<Rightarrow> bool" where
  "float_lt (Some a) (Some b) = (a < b)"
| "float_lt _ _ = False"

fun float_le :: "real option \<Rightarrow> real option \<Rightarrow> bool" where
  "float_le (Some a) (Some b) = (a \<le> b)"
| "float_le _ _ = False"

fun nan_mul :: "'a runtime \<Rightarrow> real option \<Rightarrow> real \<Rightarrow> real option" where
  "nan_mul rt (Some a) b = Some (float_mul rt a b)"
| "nan_mul rt None b = None"

text \<open>\<open>min(xs)\<close>: the running minimum is replaced only by a strictly smaller item;
  on an empty list it raises.\<close>

fun py_min :: "real option list \<Rightarrow> error + real option" where
  "py_min [] = Inl ValueError"
| "py_min (x # xs) = Inr (fold (\<lambda>y m. if float_lt y m then y else m) xs x)"

text \<open>\<open>np.median\<close>: the middle of the sorted samples, the (rounded) mean of the two
  middle ones when their number is even, \<open>nan\<close> when there is none.\<close>

definition median :: "'a runtime \<Rightarrow> real list \<Rightarrow> real option" where
  "median rt x =
     (let s = sort x; n = length s
      in if n = 0 then None
         else if odd n then Some (s ! (n div 2))
         else Some (np_mean2 rt (s ! (n div 2 - 1)) (s ! (n div 2))))"

text \<open>The decimal digits of a number, for \<open>f"{index:02d}"\<close>.\<close>

fun digits :: "nat \<Rightarrow> string" where
  "digits n =
     (if n < 10 then [char_of (48 + n)]
      else digits (n div 10) @ [char_of (48 + n mod 10)])"

declare digits.simps [simp del]

definition format_02d :: "nat \<Rightarrow> string" where
  "format_02d n = (if n < 10 then CHR ''0'' # digits n else digits n)"

subsection \<open>The classes\<close>

text \<open>\<open>_BestOfExecution\<close>. The attribute \<open>name\<close> is \<open>node_name\<close> here.\<close>

record ('p, 'e) BestOfExecution =
  best_of :: "nat option"
  execution_id :: "'e option"
  parent :: "nat option"
  children :: "nat list"
  problem_sizes :: "'p \<Rightarrow> nat"
  node_name :: string
  blocked_by :: "'p option \<Rightarrow> (nat \<times> bool) list"
  current_problem_size :: "'p option"

text \<open>\<open>BestOf\<close>: what \<open>__init__\<close> fixes.\<close>

record ('a, 'k, 'p, 'f) BestOf =
  self_id :: nat
  name :: string
  alternatives :: "(string \<times> 'f callee) list"
  get_problem_size :: "'a list \<Rightarrow> 'k \<Rightarrow> 'p"
  total_rounds :: int
  stages :: int
  prune_after_round :: int
  pruning_speedup :: real

text \<open>\<open>BestOf\<close>: what the calls change. \<open>_times\<close> is \<open>times_of\<close> here.\<close>

record ('p, 'e, 'f) BestOf_state =
  best_idx :: "'p \<Rightarrow> int"
  best_name :: "'p \<Rightarrow> string"
  best_method :: "'p \<Rightarrow> 'f callee option"
  best_pipeline :: "'p \<Rightarrow> 'f callee option"
  current_round :: "'p \<Rightarrow> int"
  current_alternative :: "'p \<Rightarrow> nat"
  times_of :: "'p \<Rightarrow> real list list"
  stages_times :: "'p \<Rightarrow> real option list list"
  executions :: "'e \<rightharpoonup> nat"

text \<open>The class attributes of both classes, the two stores, the clock and what was
  printed.\<close>

record ('p, 'e, 'f) world =
  use_first_alternative :: bool
  current_parents :: "nat list"
  names :: "string \<Rightarrow> nat"
  heap :: "nat \<Rightarrow> ('p, 'e) BestOfExecution"
  next_ref :: nat
  bestofs :: "nat \<Rightarrow> ('p, 'e, 'f) BestOf_state"
  clock :: real
  stdout :: "(int \<times> nat \<times> 'p) list"

definition root :: nat where
  "root = 0"

definition total_alternatives :: "('a, 'k, 'p, 'f) BestOf \<Rightarrow> nat" where
  "total_alternatives self = length (alternatives self)"

subsection \<open>\<open>_BestOfExecution\<close>\<close>

text \<open>\<open>__init__\<close>: the new node takes the next free address; a node of a \<open>BestOf\<close>
  is numbered among the nodes of the same name and appended to its parent's children.\<close>

definition BestOfExecution_init ::
  "(nat \<times> string) option \<Rightarrow> 'e option \<Rightarrow> nat option \<Rightarrow> ('p, 'e, 'f) world
     \<Rightarrow> nat \<times> ('p, 'e, 'f) world" where
  "BestOfExecution_init bo eid par s =
     (let this = next_ref s;
          s1 = (case bo of
                  None \<Rightarrow> s
                | Some (_, nm) \<Rightarrow> s\<lparr>names := (names s)(nm := names s nm + 1)\<rparr>);
          node = \<lparr>best_of = map_option fst bo,
                  execution_id = eid,
                  parent = par,
                  children = [],
                  problem_sizes = (\<lambda>_. 0),
                  node_name = (case bo of
                                 None \<Rightarrow> ''Execution root''
                               | Some (_, nm) \<Rightarrow> nm @ '' '' @ format_02d (names s1 nm)),
                  blocked_by = (\<lambda>_. []),
                  current_problem_size = None\<rparr>;
          s2 = s1\<lparr>heap := (heap s1)(this := node), next_ref := this + 1\<rparr>;
          s3 = (case par of
                  None \<Rightarrow> s2
                | Some p \<Rightarrow>
                    s2\<lparr>heap := (heap s2)(p := (heap s2 p)\<lparr>children := children (heap s2 p) @ [this]\<rparr>)\<rparr>)
      in (this, s3))"

definition is_root :: "('p, 'e, 'f) world \<Rightarrow> nat \<Rightarrow> bool" where
  "is_root s n = (parent (heap s n) = None)"

text \<open>\<open>block_parent\<close>: \<open>self.parent._blocked_by[self.parent._current_problem_size][self] = True\<close>
  unless the parent is the root.\<close>

definition dict_set :: "('x \<times> 'y) list \<Rightarrow> 'x \<Rightarrow> 'y \<Rightarrow> ('x \<times> 'y) list" where
  "dict_set d k v = (if k \<in> fst ` set d then map (\<lambda>(k', v'). if k' = k then (k', v) else (k', v')) d
                     else d @ [(k, v)])"

definition dict_pop :: "('x \<times> 'y) list \<Rightarrow> 'x \<Rightarrow> ('x \<times> 'y) list" where
  "dict_pop d k = filter (\<lambda>(k', _). k' \<noteq> k) d"

definition block_parent :: "nat \<Rightarrow> ('p, 'e, 'f) world \<Rightarrow> ('p, 'e, 'f) world" where
  "block_parent this s =
     (case parent (heap s this) of
        None \<Rightarrow> s
      | Some p \<Rightarrow>
          if is_root s p then s
          else let key = current_problem_size (heap s p)
               in s\<lparr>heap := (heap s)(p := (heap s p)\<lparr>blocked_by :=
                      (blocked_by (heap s p))(key := dict_set (blocked_by (heap s p) key) this True)\<rparr>)\<rparr>)"

text \<open>\<open>unblock_parent\<close>: the entry of this node is popped; a missing entry is no error.\<close>

definition unblock_parent :: "nat \<Rightarrow> ('p, 'e, 'f) world \<Rightarrow> ('p, 'e, 'f) world" where
  "unblock_parent this s =
     (case parent (heap s this) of
        None \<Rightarrow> s
      | Some p \<Rightarrow>
          if is_root s p then s
          else let key = current_problem_size (heap s p)
               in s\<lparr>heap := (heap s)(p := (heap s p)\<lparr>blocked_by :=
                      (blocked_by (heap s p))(key := dict_pop (blocked_by (heap s p) key) this)\<rparr>)\<rparr>)"

definition is_blocked :: "('p, 'e, 'f) world \<Rightarrow> nat \<Rightarrow> bool" where
  "is_blocked s this =
     (True \<in> snd ` set (blocked_by (heap s this) (current_problem_size (heap s this))))"

definition set_problem_size :: "nat \<Rightarrow> 'p \<Rightarrow> ('p, 'e, 'f) world \<Rightarrow> ('p, 'e, 'f) world" where
  "set_problem_size this problem_size s =
     s\<lparr>heap := (heap s)(this := (heap s this)\<lparr>
          current_problem_size := Some problem_size,
          problem_sizes := (problem_sizes (heap s this))
             (problem_size := problem_sizes (heap s this) problem_size + 1)\<rparr>)\<rparr>"

subsection \<open>\<open>BestOf\<close>: construction\<close>

text \<open>The checks of \<open>__init__\<close> on the alternatives: functions when there is one stage,
  lists of \<open>stages\<close> functions otherwise.\<close>

definition alternative_ok :: "int \<Rightarrow> string \<times> 'f callee \<Rightarrow> bool" where
  "alternative_ok stgs a =
     (case snd a of
        Method _ \<Rightarrow> stgs = 1
      | Pipeline ms \<Rightarrow> stgs \<noteq> 1 \<and> int (length ms) = stgs)"

text \<open>\<open>_times_arrays\<close> and \<open>_stages_times_arrays\<close>, the factories of \<open>_times\<close> and
  \<open>_stages_times\<close>.\<close>

definition times_arrays :: "('a, 'k, 'p, 'f) BestOf \<Rightarrow> real list list" where
  "times_arrays self = replicate (total_alternatives self) []"

definition stages_times_arrays :: "('a, 'k, 'p, 'f) BestOf \<Rightarrow> real option list list" where
  "stages_times_arrays self =
     replicate (total_alternatives self) (replicate (nat (stages self)) None)"

definition BestOf_state_init :: "('a, 'k, 'p, 'f) BestOf \<Rightarrow> ('p, 'e, 'f) BestOf_state" where
  "BestOf_state_init self =
     \<lparr>best_idx = (\<lambda>_. - 1),
      best_name = (\<lambda>_. ''None''),
      best_method = (\<lambda>_. None),
      best_pipeline = (\<lambda>_. None),
      current_round = (\<lambda>_. 0),
      current_alternative = (\<lambda>_. 0),
      times_of = (\<lambda>_. times_arrays self),
      stages_times = (\<lambda>_. stages_times_arrays self),
      executions = Map.empty\<rparr>"

text \<open>\<open>__init__\<close>: a failed assertion creates nothing; otherwise the instance gets the
  next free identity and its attributes their initial values.\<close>

definition BestOf_init ::
  "string \<Rightarrow> (string \<times> 'f callee) list \<Rightarrow> ('a list \<Rightarrow> 'k \<Rightarrow> 'p) \<Rightarrow> int \<Rightarrow> real \<Rightarrow> int \<Rightarrow> int
     \<Rightarrow> ('p, 'e, 'f) world \<Rightarrow> ('p, 'e, 'f) world \<times> (error + ('a, 'k, 'p, 'f) BestOf)" where
  "BestOf_init nm alts gps rounds speedup prune_after stgs s =
     (if \<not> stgs \<ge> 1 then (s, Inl AssertionError)
      else if \<not> rounds \<ge> 1 then (s, Inl AssertionError)
      else if \<not> speedup > 1 then (s, Inl AssertionError)
      else if \<not> list_all (alternative_ok stgs) alts then (s, Inl AssertionError)
      else
        let self = \<lparr>self_id = next_ref s, name = nm, alternatives = alts,
                     get_problem_size = gps, total_rounds = rounds, stages = stgs,
                     prune_after_round = prune_after, pruning_speedup = speedup\<rparr>
        in (s\<lparr>next_ref := next_ref s + 1,
               bestofs := (bestofs s)(next_ref s := BestOf_state_init self)\<rparr>,
            Inr self))"

text \<open>The world when the module has been imported: only the root node exists, and no
  \<open>BestOf\<close> instance yet (the store holds placeholders with no alternative).\<close>

definition world_init :: "('p, 'e, 'f) world" where
  "world_init =
     snd (BestOfExecution_init None None None
       \<lparr>use_first_alternative = False, current_parents = [], names = (\<lambda>_. 0),
        heap = (\<lambda>_. \<lparr>best_of = None, execution_id = None, parent = None, children = [],
                     problem_sizes = (\<lambda>_. 0), node_name = [], blocked_by = (\<lambda>_. []),
                     current_problem_size = None\<rparr>),
        next_ref = 0,
        bestofs = (\<lambda>_. \<lparr>best_idx = (\<lambda>_. - 1), best_name = (\<lambda>_. ''None''),
                         best_method = (\<lambda>_. None), best_pipeline = (\<lambda>_. None),
                         current_round = (\<lambda>_. 0), current_alternative = (\<lambda>_. 0),
                         times_of = (\<lambda>_. []), stages_times = (\<lambda>_. []),
                         executions = Map.empty\<rparr>),
        clock = 0, stdout = []\<rparr>)"

text \<open>\<open>use_always_the_first_alternative\<close>.\<close>

definition use_always_the_first_alternative :: "('p, 'e, 'f) world \<Rightarrow> ('p, 'e, 'f) world" where
  "use_always_the_first_alternative s = s\<lparr>use_first_alternative := True\<rparr>"

subsection \<open>\<open>BestOf\<close>: the call\<close>

text \<open>\<open>_register\<close>: the node of this call stack, created under the innermost running
  evaluation (or the root) when the stack is new.\<close>

definition register ::
  "('a, 'k, 'p, 'f) BestOf \<Rightarrow> 'e \<Rightarrow> ('p, 'e, 'f) world \<Rightarrow> nat \<times> ('p, 'e, 'f) world" where
  "register self eid s =
     (case executions (bestofs s (self_id self)) eid of
        Some current_execution \<Rightarrow> (current_execution, s)
      | None \<Rightarrow>
          let current_root = (if current_parents s \<noteq> [] then last (current_parents s) else root);
              (current_execution, s1) =
                 BestOfExecution_init (Some (self_id self, name self)) (Some eid) (Some current_root) s
          in (current_execution,
              s1\<lparr>bestofs := (bestofs s1)(self_id self := (bestofs s1 (self_id self))
                    \<lparr>executions := (executions (bestofs s1 (self_id self)))(eid \<mapsto> current_execution)\<rparr>)\<rparr>))"

text \<open>\<open>stage = int(args.pop(0)) if self.stages > 1 else 0\<close>.\<close>

definition pop_stage ::
  "'a runtime \<Rightarrow> ('a, 'k, 'p, 'f) BestOf \<Rightarrow> 'a list \<Rightarrow> error + (int \<times> 'a list)" where
  "pop_stage rt self args =
     (if stages self > 1 then
        (case args of
           [] \<Rightarrow> Inl IndexError
         | a # rest \<Rightarrow> (case py_int rt a of Inl e \<Rightarrow> Inl e | Inr i \<Rightarrow> Inr (i, rest)))
      else Inr (0, args))"

text \<open>\<open>c[stage]\<close> on the second component of an alternative, and the call \<open>c(*args, **kwargs)\<close>:
  a function cannot be subscripted, a list cannot be called.\<close>

definition subscript :: "'f callee \<Rightarrow> int \<Rightarrow> error + 'f callee" where
  "subscript c stage =
     (case c of
        Method _ \<Rightarrow> Inl TypeError
      | Pipeline ms \<Rightarrow> (case py_getitem ms stage of Inl e \<Rightarrow> Inl e | Inr m \<Rightarrow> Inr (Method m)))"

definition call_callee ::
  "('f \<Rightarrow> 'a list \<Rightarrow> 'k \<Rightarrow> ('p, 'e, 'f) world \<Rightarrow> ('p, 'e, 'f) world \<times> (error + 'r))
     \<Rightarrow> 'f callee \<Rightarrow> 'a list \<Rightarrow> 'k \<Rightarrow> ('p, 'e, 'f) world \<Rightarrow> ('p, 'e, 'f) world \<times> (error + 'r)" where
  "call_callee invoke c args kwargs s =
     (case c of
        Method f \<Rightarrow> invoke f args kwargs s
      | Pipeline _ \<Rightarrow> (s, Inl TypeError))"

text \<open>\<open>self.alternatives[i][1]\<close> when there is one stage, \<open>self.alternatives[i][1][stage]\<close>
  otherwise.\<close>

definition alternative_at ::
  "('a, 'k, 'p, 'f) BestOf \<Rightarrow> nat \<Rightarrow> int \<Rightarrow> error + 'f callee" where
  "alternative_at self i stage =
     (case py_getitem (alternatives self) (int i) of
        Inl e \<Rightarrow> Inl e
      | Inr a \<Rightarrow> if stages self = 1 then Inr (snd a) else subscript (snd a) stage)"

text \<open>The first part of \<open>__call__\<close>, up to the call of the chosen function. It ends in
  one of three ways: an exception; a function to call whose result is returned as it is
  (the first alternative under the global switch, or the cached selection); or the
  alternative under evaluation, with the node, the problem size, the stage and the cursor
  read before the call.\<close>

datatype ('a, 'p, 'f) dispatch =
    Raise error
  | Direct "'f callee" "'a list"
  | Evaluate nat 'p int nat "'f callee" "'a list"

definition call_pre ::
  "'a runtime \<Rightarrow> ('a, 'k, 'p, 'f) BestOf \<Rightarrow> 'e \<Rightarrow> 'a list \<Rightarrow> 'k \<Rightarrow> ('p, 'e, 'f) world
     \<Rightarrow> ('p, 'e, 'f) world \<times> ('a, 'p, 'f) dispatch" where
  "call_pre rt self current_execution_id args0 kwargs s0 =
     (let (current_execution, s) = register self current_execution_id s0
      in case pop_stage rt self args0 of
           Inl e \<Rightarrow> (s, Raise e)
         | Inr (stage, args) \<Rightarrow>
             if \<not> stage < stages self then (s, Raise AssertionError)
             else if use_first_alternative s then
               (case alternative_at self 0 stage of
                  Inl e \<Rightarrow> (s, Raise e)
                | Inr first_alternative \<Rightarrow> (s, Direct first_alternative args))
             else
               let problem_size = get_problem_size self args kwargs;
                   s = set_problem_size current_execution problem_size s;
                   cached = (if stages self = 1
                             then Inr (best_method (bestofs s (self_id self)) problem_size)
                             else (case best_pipeline (bestofs s (self_id self)) problem_size of
                                     None \<Rightarrow> Inr None
                                   | Some pipeline \<Rightarrow>
                                       (case subscript pipeline stage of
                                          Inl e \<Rightarrow> Inl e
                                        | Inr m \<Rightarrow> Inr (Some m))))
               in case cached of
                    Inl e \<Rightarrow> (s, Raise e)
                  | Inr (Some best) \<Rightarrow> (s, Direct best args)
                  | Inr None \<Rightarrow>
                      let s = block_parent current_execution s;
                          cur_alternative = current_alternative (bestofs s (self_id self)) problem_size;
                          s = s\<lparr>current_parents := current_parents s @ [current_execution]\<rparr>
                      in case alternative_at self cur_alternative stage of
                           Inl e \<Rightarrow> (s, Raise e)
                         | Inr alternative \<Rightarrow>
                             (s\<lparr>stdout := stdout s @ [(stage, cur_alternative, problem_size)]\<rparr>,
                              Evaluate current_execution problem_size stage cur_alternative
                                alternative args))"

text \<open>\<open>evolve\<close>. It runs only after \<open>self.alternatives[current_alternative]\<close> was read, so
  the number of alternatives is not zero.\<close>

definition evolve ::
  "('a, 'k, 'p, 'f) BestOf \<Rightarrow> int \<Rightarrow> nat \<Rightarrow> int \<Rightarrow> nat \<times> int" where
  "evolve self stage alt rnd =
     (if stages self = 1 \<or> (stages self > 1 \<and> stage = stages self - 1) then
        let new_alternative = (alt + 1) mod total_alternatives self
        in (new_alternative, if new_alternative = 0 then rnd + 1 else rnd)
      else (alt, rnd))"

text \<open>\<open>self._times[problem_size][current_alternative].append(t)\<close>.\<close>

definition append_time ::
  "'p \<Rightarrow> nat \<Rightarrow> real \<Rightarrow> ('p, 'e, 'f) BestOf_state \<Rightarrow> error + ('p, 'e, 'f) BestOf_state" where
  "append_time problem_size i t st =
     (if i < length (times_of st problem_size) then
        Inr (st\<lparr>times_of := (times_of st)(problem_size :=
               (times_of st problem_size)[i := times_of st problem_size ! i @ [t]])\<rparr>)
      else Inl IndexError)"

text \<open>"Record execution time and evolve current alternative and round": the result is
  the new state with the new values of the local variables \<open>current_alternative\<close> and
  \<open>current_round\<close>.\<close>

definition record_time ::
  "'a runtime \<Rightarrow> ('a, 'k, 'p, 'f) BestOf \<Rightarrow> 'p \<Rightarrow> int \<Rightarrow> nat \<Rightarrow> real \<Rightarrow> ('p, 'e, 'f) BestOf_state
     \<Rightarrow> ('p, 'e, 'f) BestOf_state \<times> (error + nat \<times> int)" where
  "record_time rt self problem_size stage cur_alternative elapsed_time st =
     (let cur_round = current_round st problem_size
      in if stages self = 1 then
           (case append_time problem_size cur_alternative elapsed_time st of
              Inl e \<Rightarrow> (st, Inl e)
            | Inr st1 \<Rightarrow> (st1, Inr (evolve self stage cur_alternative cur_round)))
         else
           (case py_getitem (stages_times st problem_size) (int cur_alternative) of
              Inl e \<Rightarrow> (st, Inl e)
            | Inr buffer \<Rightarrow>
                (case py_setitem buffer stage (Some elapsed_time) of
                   Inl e \<Rightarrow> (st, Inl e)
                 | Inr buffer1 \<Rightarrow>
                     let st1 = st\<lparr>stages_times := (stages_times st)(problem_size :=
                                  (stages_times st problem_size)[cur_alternative := buffer1])\<rparr>
                     in if stage = stages self - 1 then
                          (case (if None \<notin> set buffer1 then
                                   (case append_time problem_size cur_alternative
                                           (np_sum rt (map the buffer1)) st1 of
                                      Inl e \<Rightarrow> (st1, Inl e)
                                    | Inr st2 \<Rightarrow>
                                        (st2, Inr (evolve self stage cur_alternative cur_round)))
                                 else (st1, Inr (cur_alternative, cur_round))) of
                             (st2, Inl e) \<Rightarrow> (st2, Inl e)
                           | (st2, Inr (alt, rnd)) \<Rightarrow>
                               if alt < length (stages_times st2 problem_size) then
                                 (st2\<lparr>stages_times := (stages_times st2)(problem_size :=
                                        (stages_times st2 problem_size)
                                          [alt := replicate (nat (stages self)) None])\<rparr>,
                                  Inr (alt, rnd))
                               else (st2, Inl IndexError))
                        else (st1, Inr (cur_alternative, cur_round)))))"

text \<open>The loop that moves the cursor to the first alternative, from the cursor on, whose
  median is within the pruning speedup; the cursor stays when there is none.\<close>

definition first_below ::
  "real option list \<Rightarrow> real option \<Rightarrow> nat \<Rightarrow> nat" where
  "first_below best_times bound cur_alternative =
     (case List.find (\<lambda>i. float_le (best_times ! i) bound)
             [cur_alternative ..< length best_times] of
        Some i \<Rightarrow> i
      | None \<Rightarrow> cur_alternative)"

text \<open>"Select best method if enough results are available". The result is the new
  state, the new cursor, and whether the parent is to be unblocked.\<close>

definition select_best ::
  "'a runtime \<Rightarrow> ('a, 'k, 'p, 'f) BestOf \<Rightarrow> 'p \<Rightarrow> nat \<Rightarrow> int \<Rightarrow> ('p, 'e, 'f) BestOf_state
     \<Rightarrow> ('p, 'e, 'f) BestOf_state \<times> (error + nat \<times> bool)" where
  "select_best rt self problem_size cur_alternative cur_round st =
     (if cur_alternative = 0
         \<and> cur_round \<ge> min (prune_after_round self) (total_rounds self) then
        let best_times = map (median rt) (times_of st problem_size)
        in case py_min best_times of
             Inl e \<Rightarrow> (st, Inl e)
           | Inr min_time \<Rightarrow>
               let bound = nan_mul rt min_time (pruning_speedup self);
                   alternatives_below_pruning_speedup = filter (\<lambda>x. float_le x bound) best_times
               in if cur_round = total_rounds self
                     \<or> length alternatives_below_pruning_speedup = 1 then
                    (case py_index best_times min_time of
                       None \<Rightarrow> (st, Inl ValueError)
                     | Some i \<Rightarrow>
                         let st1 = st\<lparr>best_idx := (best_idx st)(problem_size := int i)\<rparr>
                         in case py_getitem (alternatives self) (best_idx st1 problem_size) of
                              Inl e \<Rightarrow> (st1, Inl e)
                            | Inr a \<Rightarrow>
                                ((if stages self = 1 then
                                    st1\<lparr>best_name := (best_name st1)(problem_size := fst a),
                                        best_method := (best_method st1)(problem_size := Some (snd a))\<rparr>
                                  else
                                    st1\<lparr>best_name := (best_name st1)(problem_size := fst a),
                                        best_pipeline := (best_pipeline st1)(problem_size := Some (snd a))\<rparr>),
                                 Inr (cur_alternative, True)))
                  else (st, Inr (first_below best_times bound cur_alternative, False))
      else (st, Inr (cur_alternative, False)))"

text \<open>The second part of \<open>__call__\<close>, from the return of the alternative: \<open>s\<close> is the
  world the alternative left, \<open>elapsed_time\<close> the difference of the two readings of the
  timer.\<close>

definition call_post ::
  "'a runtime \<Rightarrow> ('a, 'k, 'p, 'f) BestOf \<Rightarrow> nat \<Rightarrow> 'p \<Rightarrow> int \<Rightarrow> nat \<Rightarrow> real \<Rightarrow> 'r \<Rightarrow> ('p, 'e, 'f) world
     \<Rightarrow> ('p, 'e, 'f) world \<times> (error + 'r)" where
  "call_post rt self current_execution problem_size stage cur_alternative elapsed_time output s0 =
     (if current_parents s0 = [] then (s0, Inl IndexError)
      else
        let s = s0\<lparr>current_parents := butlast (current_parents s0)\<rparr>
        in if is_blocked s current_execution then (s, Inr output)
           else
             (case record_time rt self problem_size stage cur_alternative elapsed_time
                     (bestofs s (self_id self)) of
                (st1, Inl e) \<Rightarrow> (s\<lparr>bestofs := (bestofs s)(self_id self := st1)\<rparr>, Inl e)
              | (st1, Inr (alt, rnd)) \<Rightarrow>
                  (case select_best rt self problem_size alt rnd st1 of
                     (st2, Inl e) \<Rightarrow> (s\<lparr>bestofs := (bestofs s)(self_id self := st2)\<rparr>, Inl e)
                   | (st2, Inr (alt2, unblock)) \<Rightarrow>
                       let s1 = s\<lparr>bestofs := (bestofs s)(self_id self := st2)\<rparr>;
                           s2 = (if unblock then unblock_parent current_execution s1 else s1);
                           st3 = bestofs s2 (self_id self)
                       in (s2\<lparr>bestofs := (bestofs s2)(self_id self := st3
                                \<lparr>current_alternative := (current_alternative st3)(problem_size := alt2),
                                 current_round := (current_round st3)(problem_size := rnd)\<rparr>)\<rparr>,
                           Inr output))))"

text \<open>\<open>__call__\<close>.\<close>

definition bestof_call ::
  "'a runtime \<Rightarrow> ('f \<Rightarrow> 'a list \<Rightarrow> 'k \<Rightarrow> ('p, 'e, 'f) world \<Rightarrow> ('p, 'e, 'f) world \<times> (error + 'r))
     \<Rightarrow> ('a, 'k, 'p, 'f) BestOf \<Rightarrow> 'e \<Rightarrow> 'a list \<Rightarrow> 'k \<Rightarrow> ('p, 'e, 'f) world
     \<Rightarrow> ('p, 'e, 'f) world \<times> (error + 'r)" where
  "bestof_call rt invoke self current_execution_id args kwargs s =
     (case call_pre rt self current_execution_id args kwargs s of
        (s1, Raise e) \<Rightarrow> (s1, Inl e)
      | (s1, Direct f args1) \<Rightarrow> call_callee invoke f args1 kwargs s1
      | (s1, Evaluate current_execution problem_size stage cur_alternative alternative args1) \<Rightarrow>
          (case call_callee invoke alternative args1 kwargs s1 of
             (s2, Inl e) \<Rightarrow> (s2, Inl e)
           | (s2, Inr output) \<Rightarrow>
               call_post rt self current_execution problem_size stage cur_alternative
                 (float_sub rt (clock s2) (clock s1)) output s2))"

subsection \<open>Predicates used in the statements\<close>

text \<open>For one problem size: a stored selection is a position of the list of alternatives,
  and the cached name and callable are the ones registered there.\<close>

definition selection_consistent ::
  "('a, 'k, 'p, 'f) BestOf \<Rightarrow> ('p, 'e, 'f) BestOf_state \<Rightarrow> 'p \<Rightarrow> bool" where
  "selection_consistent self st ps =
     (best_idx st ps \<noteq> - 1 \<longrightarrow>
        0 \<le> best_idx st ps \<and> best_idx st ps < int (length (alternatives self))
        \<and> best_name st ps = fst (alternatives self ! nat (best_idx st ps))
        \<and> (if stages self = 1 then best_method st ps else best_pipeline st ps)
            = Some (snd (alternatives self ! nat (best_idx st ps))))"

text \<open>For every problem size: the selection is consistent, and \<open>_times\<close> holds one
  series for each alternative.\<close>

definition selection_invariant ::
  "('a, 'k, 'p, 'f) BestOf \<Rightarrow> ('p, 'e, 'f) world \<Rightarrow> bool" where
  "selection_invariant self s =
     (\<forall>ps. selection_consistent self (bestofs s (self_id self)) ps
           \<and> length (times_of (bestofs s (self_id self)) ps) = length (alternatives self))"

text \<open>Whether the second part of \<open>__call__\<close>, entered in world \<open>s\<close> with elapsed time
  \<open>t\<close>, reaches the branch "Select best alternative" (lines 365 to 374): the stack is not
  empty, no child blocks the node, the sample is recorded and the decision selects.\<close>

definition selects ::
  "'a runtime \<Rightarrow> ('a, 'k, 'p, 'f) BestOf \<Rightarrow> nat \<Rightarrow> 'p \<Rightarrow> int \<Rightarrow> nat \<Rightarrow> real
     \<Rightarrow> ('p, 'e, 'f) world \<Rightarrow> bool" where
  "selects rt self n ps stage cur t s =
     (current_parents s \<noteq> [] \<and> \<not> is_blocked s n
      \<and> (case record_time rt self ps stage cur t (bestofs s (self_id self)) of
            (st1, Inl e) \<Rightarrow> False
          | (st1, Inr (alt, rnd)) \<Rightarrow>
              (case select_best rt self ps alt rnd st1 of
                 (st2, Inl e) \<Rightarrow> False
               | (st2, Inr (alt2, unblock)) \<Rightarrow> unblock)))"

subsection \<open>Example instances\<close>

text \<open>The runtime of the examples: arguments are integers, and the float operations are
  the operations of the reals, which is what float64 computes on the values the examples
  use (sums, differences and halves of small integers).\<close>

definition exact :: "int runtime" where
  "exact = \<lparr>py_int = Inr, np_mean2 = (\<lambda>a b. (a + b) / 2), np_sum = sum_list,
            float_mul = (*), float_sub = (-)\<rparr>"

text \<open>Functions that call no \<open>BestOf\<close>: function \<open>f\<close> takes \<open>cost f\<close> on the clock and
  returns its own number.\<close>

definition timed_invoke ::
  "(nat \<Rightarrow> real) \<Rightarrow> nat \<Rightarrow> 'a list \<Rightarrow> 'k \<Rightarrow> ('p, 'e, nat) world
     \<Rightarrow> ('p, 'e, nat) world \<times> (error + nat)" where
  "timed_invoke cost f args kwargs s = (s\<lparr>clock := clock s + cost f\<rparr>, Inr f)"

text \<open>One alternative and one round: the first call selects.\<close>

definition solo :: "(int, unit, nat, nat) BestOf" where
  "solo = \<lparr>self_id = 1, name = ''solo'', alternatives = [(''only'', Method 0)],
           get_problem_size = (\<lambda>_ _. 0), total_rounds = 1, stages = 1,
           prune_after_round = 4, pruning_speedup = 10\<rparr>"

definition solo_world :: "(nat, nat, nat) world" where
  "solo_world =
     fst (BestOf_init ''solo'' [(''only'', Method 0)] (\<lambda>(_ :: int list) (_ :: unit). 0)
            1 10 4 1 world_init)"

text \<open>The same world after one call, which times the only alternative and selects it.\<close>

definition solo_selected :: "(nat, nat, nat) world" where
  "solo_selected = fst (bestof_call exact (timed_invoke (\<lambda>_. 1)) solo 0 [] () solo_world)"

text \<open>Two instances: both functions of \<open>outer\<close> call \<open>inner\<close>.\<close>

definition inner :: "(int, unit, nat, nat) BestOf" where
  "inner = \<lparr>self_id = 1, name = ''inner'', alternatives = [(''a'', Method 0), (''b'', Method 1)],
            get_problem_size = (\<lambda>_ _. 0), total_rounds = 10, stages = 1,
            prune_after_round = 4, pruning_speedup = 10\<rparr>"

definition outer :: "(int, unit, nat, nat) BestOf" where
  "outer = \<lparr>self_id = 2, name = ''outer'', alternatives = [(''c'', Method 2), (''d'', Method 3)],
            get_problem_size = (\<lambda>_ _. 0), total_rounds = 10, stages = 1,
            prune_after_round = 4, pruning_speedup = 10\<rparr>"

definition two_bestofs :: "(nat, nat, nat) world" where
  "two_bestofs =
     fst (BestOf_init ''outer'' [(''c'', Method 2), (''d'', Method 3)]
            (\<lambda>(_ :: int list) (_ :: unit). 0) 10 10 4 1
       (fst (BestOf_init ''inner'' [(''a'', Method 0), (''b'', Method 1)]
               (\<lambda>(_ :: int list) (_ :: unit). 0) 10 10 4 1 world_init)))"

definition nested_invoke ::
  "nat \<Rightarrow> int list \<Rightarrow> unit \<Rightarrow> (nat, nat, nat) world \<Rightarrow> (nat, nat, nat) world \<times> (error + nat)" where
  "nested_invoke f args kwargs s =
     (if f = 2 \<or> f = 3 then bestof_call exact (timed_invoke (\<lambda>_. 1)) inner 1 args kwargs s
      else timed_invoke (\<lambda>_. 1) f args kwargs s)"

text \<open>A pipeline of two stages with two alternatives.\<close>

definition pipe :: "(int, unit, nat, nat) BestOf" where
  "pipe = \<lparr>self_id = 1, name = ''pipe'',
           alternatives = [(''p'', Pipeline [0, 1]), (''q'', Pipeline [2, 3])],
           get_problem_size = (\<lambda>_ _. 0), total_rounds = 10, stages = 2,
           prune_after_round = 4, pruning_speedup = 10\<rparr>"

definition pipe_world :: "(nat, nat, nat) world" where
  "pipe_world =
     fst (BestOf_init ''pipe'' [(''p'', Pipeline [0, 1]), (''q'', Pipeline [2, 3])]
            (\<lambda>(_ :: int list) (_ :: unit). 0) 10 10 4 2 world_init)"

text \<open>The nested pair at three moments: \<open>outer\<close> is about to run its first alternative;
  inside it, \<open>inner\<close> is about to run its own; and \<open>inner\<close> has returned.\<close>

definition outer_running :: "(nat, nat, nat) world" where
  "outer_running = fst (call_pre exact outer 0 [] () two_bestofs)"

definition inner_started :: "(nat, nat, nat) world" where
  "inner_started = fst (call_pre exact inner 1 [] () outer_running)"

definition inner_returned :: "(nat, nat, nat) world" where
  "inner_returned = fst (bestof_call exact (timed_invoke (\<lambda>_. 1)) inner 1 [] () outer_running)"

text \<open>The quantities of the pruning decision, on the real numbers: the median of the
  samples of alternative \<open>j\<close>, the least of the medians, and whether alternative \<open>j\<close>
  is within the pruning speedup of it ("still live").\<close>

definition median_at :: "'a runtime \<Rightarrow> ('p, 'e, 'f) BestOf_state \<Rightarrow> 'p \<Rightarrow> nat \<Rightarrow> real" where
  "median_at rt st ps j = the (median rt (times_of st ps ! j))"

definition min_median :: "'a runtime \<Rightarrow> ('p, 'e, 'f) BestOf_state \<Rightarrow> 'p \<Rightarrow> real" where
  "min_median rt st ps = Min (median_at rt st ps ` {..<length (times_of st ps)})"

definition live :: "'a runtime \<Rightarrow> ('a, 'k, 'p, 'f) BestOf \<Rightarrow> ('p, 'e, 'f) BestOf_state \<Rightarrow> 'p \<Rightarrow> nat \<Rightarrow> bool" where
  "live rt self st ps j = (median_at rt st ps j \<le> float_mul rt (min_median rt st ps) (pruning_speedup self))"

text \<open>Alternatives that call no \<open>BestOf\<close> and raise nothing: all they change is the
  clock.\<close>

definition quiet ::
  "('f \<Rightarrow> 'a list \<Rightarrow> 'k \<Rightarrow> ('p, 'e, 'f) world \<Rightarrow> ('p, 'e, 'f) world \<times> (error + 'r)) \<Rightarrow> bool" where
  "quiet invoke = (\<forall>f a k w. \<exists>t out. invoke f a k w = (w\<lparr>clock := clock w + t\<rparr>, Inr out))"

text \<open>The call stack \<open>eid\<close> is registered as node \<open>n\<close>, the node is not its own parent
  and no child blocks it for the problem size, and the global switch is off.\<close>

definition at_site ::
  "('a, 'k, 'p, 'f) BestOf \<Rightarrow> 'e \<Rightarrow> 'p \<Rightarrow> nat \<Rightarrow> ('p, 'e, 'f) world \<Rightarrow> bool" where
  "at_site self eid ps n s =
     (\<not> use_first_alternative s
      \<and> executions (bestofs s (self_id self)) eid = Some n
      \<and> parent (heap s n) \<noteq> Some n
      \<and> True \<notin> snd ` set (blocked_by (heap s n) (Some ps)))"

text \<open>Two alternatives of equal cost and one round: the second call decides.
  \<open>duo_deciding\<close> is the world in which the second alternative of that round has just
  returned.\<close>

definition duo :: "(int, unit, nat, nat) BestOf" where
  "duo = \<lparr>self_id = 1, name = ''duo'', alternatives = [(''A'', Method 0), (''B'', Method 1)],
          get_problem_size = (\<lambda>_ _. 0), total_rounds = 1, stages = 1,
          prune_after_round = 4, pruning_speedup = 10\<rparr>"

definition duo_world :: "(nat, nat, nat) world" where
  "duo_world =
     fst (BestOf_init ''duo'' [(''A'', Method 0), (''B'', Method 1)]
            (\<lambda>(_ :: int list) (_ :: unit). 0) 1 10 4 1 world_init)"

definition duo_deciding :: "(nat, nat, nat) world" where
  "duo_deciding =
     fst (timed_invoke (\<lambda>_. 1) 1 ([] :: int list) ()
       (fst (call_pre exact duo 0 [] ()
          (fst (bestof_call exact (timed_invoke (\<lambda>_. 1)) duo 0 [] () duo_world)))))"

text \<open>The world after both calls of the round of \<open>duo\<close>: the first alternative is cached.\<close>

definition duo_selected :: "(nat, nat, nat) world" where
  "duo_selected =
     fst (bestof_call exact (timed_invoke (\<lambda>_. 1)) duo 0 [] ()
       (fst (bestof_call exact (timed_invoke (\<lambda>_. 1)) duo 0 [] () duo_world)))"

text \<open>A recursive use: with the argument \<open>1\<close> a function works for 98 time units and calls
  \<open>recur\<close> again, from another place, with the argument \<open>0\<close>; with any other argument it
  calls nothing. Function 0 takes 2 time units and function 1 takes 1.\<close>

definition recur :: "(int, unit, nat, nat) BestOf" where
  "recur = \<lparr>self_id = 1, name = ''recur'', alternatives = [(''A'', Method 0), (''B'', Method 1)],
            get_problem_size = (\<lambda>_ _. 0), total_rounds = 1, stages = 1,
            prune_after_round = 4, pruning_speedup = 10\<rparr>"

definition recur_world :: "(nat, nat, nat) world" where
  "recur_world =
     fst (BestOf_init ''recur'' [(''A'', Method 0), (''B'', Method 1)]
            (\<lambda>(_ :: int list) (_ :: unit). 0) 1 10 4 1 world_init)"

definition recur_invoke ::
  "nat \<Rightarrow> int list \<Rightarrow> unit \<Rightarrow> (nat, nat, nat) world \<Rightarrow> (nat, nat, nat) world \<times> (error + nat)" where
  "recur_invoke f args kwargs s =
     (if args = [1] then
        bestof_call exact (timed_invoke (\<lambda>g. if g = 0 then 2 else 1)) recur 1 [0] kwargs
          (s\<lparr>clock := clock s + 98\<rparr>)
      else timed_invoke (\<lambda>g. if g = 0 then 2 else 1) f args kwargs s)"

text \<open>Three moments: after a first call \<open>recur(0)\<close>, which samples A; inside a second call
  \<open>recur(1)\<close>, which evaluates B, when the nested call made by B has returned; and when the
  second call has returned.\<close>

definition recur_first :: "(nat, nat, nat) world" where
  "recur_first = fst (bestof_call exact recur_invoke recur 0 [0] () recur_world)"

definition recur_cached :: "(nat, nat, nat) world" where
  "recur_cached = fst (recur_invoke 1 [1] () (fst (call_pre exact recur 0 [1] () recur_first)))"

definition recur_final :: "(nat, nat, nat) world" where
  "recur_final = fst (bestof_call exact recur_invoke recur 0 [1] () recur_first)"


section \<open>Properties\<close>

subsection \<open>What the parts of a call leave unchanged\<close>

lemma BestOfExecution_init_frame [simp]:
  "bestofs (snd (BestOfExecution_init bo eid par s)) = bestofs s"
  "use_first_alternative (snd (BestOfExecution_init bo eid par s)) = use_first_alternative s"
  "current_parents (snd (BestOfExecution_init bo eid par s)) = current_parents s"
  "clock (snd (BestOfExecution_init bo eid par s)) = clock s"
  "stdout (snd (BestOfExecution_init bo eid par s)) = stdout s"
  "fst (BestOfExecution_init bo eid par s) = next_ref s"
  by (simp_all add: BestOfExecution_init_def Let_def split: option.splits prod.splits)

lemma set_problem_size_frame [simp]:
  "bestofs (set_problem_size n ps s) = bestofs s"
  "use_first_alternative (set_problem_size n ps s) = use_first_alternative s"
  "current_parents (set_problem_size n ps s) = current_parents s"
  "clock (set_problem_size n ps s) = clock s"
  "stdout (set_problem_size n ps s) = stdout s"
  by (simp_all add: set_problem_size_def)

lemma block_parent_frame [simp]:
  "bestofs (block_parent n s) = bestofs s"
  "use_first_alternative (block_parent n s) = use_first_alternative s"
  "current_parents (block_parent n s) = current_parents s"
  "clock (block_parent n s) = clock s"
  "stdout (block_parent n s) = stdout s"
  by (simp_all add: block_parent_def Let_def split: option.splits)

lemma unblock_parent_frame [simp]:
  "bestofs (unblock_parent n s) = bestofs s"
  "use_first_alternative (unblock_parent n s) = use_first_alternative s"
  "current_parents (unblock_parent n s) = current_parents s"
  "clock (unblock_parent n s) = clock s"
  "stdout (unblock_parent n s) = stdout s"
  by (simp_all add: unblock_parent_def Let_def split: option.splits)

lemma register_bestofs:
  "bestofs (snd (register self eid s)) =
     (bestofs s)(self_id self := (bestofs s (self_id self))
        \<lparr>executions := (executions (bestofs s (self_id self)))(eid \<mapsto> fst (register self eid s))\<rparr>)"
proof (cases "executions (bestofs s (self_id self)) eid")
  case None
  then show ?thesis
    by (simp add: register_def Let_def split_beta)
next
  case (Some n)
  then have "(executions (bestofs s (self_id self)))(eid \<mapsto> n) = executions (bestofs s (self_id self))"
    by (simp add: map_upd_triv)
  with Some show ?thesis
    by (simp add: register_def)
qed

lemma register_globals [simp]:
  "use_first_alternative (snd (register self eid s)) = use_first_alternative s"
  "current_parents (snd (register self eid s)) = current_parents s"
  "clock (snd (register self eid s)) = clock s"
  "stdout (snd (register self eid s)) = stdout s"
  by (simp_all add: register_def Let_def split_beta split: option.splits)

lemma register_known:
  "executions (bestofs s (self_id self)) eid = Some n \<Longrightarrow> register self eid s = (n, s)"
  by (simp add: register_def)


lemma call_pre_bestofs:
  "bestofs (fst (call_pre rt self eid args kwargs s)) = bestofs (snd (register self eid s))"
  by (simp add: call_pre_def Let_def split_beta split: sum.split option.split)

lemma call_pre_globals:
  "use_first_alternative (fst (call_pre rt self eid args kwargs s)) = use_first_alternative s"
  "clock (fst (call_pre rt self eid args kwargs s)) = clock s"
  by (simp_all add: call_pre_def Let_def split_beta split: sum.split option.split)


lemma call_pre_bad_stage:
  "pop_stage rt self args = Inr (stage, args1) \<Longrightarrow> \<not> stage < stages self \<Longrightarrow>
   call_pre rt self eid args kwargs s = (snd (register self eid s), Raise AssertionError)"
  by (simp add: call_pre_def split_beta)

lemma call_pre_override:
  "use_first_alternative s \<Longrightarrow> pop_stage rt self args = Inr (stage, args1) \<Longrightarrow> stage < stages self \<Longrightarrow>
   alternative_at self 0 stage = Inr c \<Longrightarrow>
   call_pre rt self eid args kwargs s = (snd (register self eid s), Direct c args1)"
  by (simp add: call_pre_def split_beta)

lemma call_pre_cached_method:
  "\<not> use_first_alternative s \<Longrightarrow> pop_stage rt self args = Inr (stage, args1) \<Longrightarrow> stage < stages self \<Longrightarrow>
   stages self = 1 \<Longrightarrow>
   best_method (bestofs s (self_id self)) (get_problem_size self args1 kwargs) = Some c \<Longrightarrow>
   call_pre rt self eid args kwargs s =
     (set_problem_size (fst (register self eid s)) (get_problem_size self args1 kwargs)
        (snd (register self eid s)), Direct c args1)"
  by (simp add: call_pre_def split_beta Let_def register_bestofs)

lemma call_pre_cached_pipeline:
  "\<not> use_first_alternative s \<Longrightarrow> pop_stage rt self args = Inr (stage, args1) \<Longrightarrow> stage < stages self \<Longrightarrow>
   stages self \<noteq> 1 \<Longrightarrow>
   best_pipeline (bestofs s (self_id self)) (get_problem_size self args1 kwargs) = Some pl \<Longrightarrow>
   subscript pl stage = Inr c \<Longrightarrow>
   call_pre rt self eid args kwargs s =
     (set_problem_size (fst (register self eid s)) (get_problem_size self args1 kwargs)
        (snd (register self eid s)), Direct c args1)"
  by (simp add: call_pre_def split_beta Let_def register_bestofs)

lemma call_pre_evaluate:
  "\<not> use_first_alternative s \<Longrightarrow> pop_stage rt self args = Inr (stage, args1) \<Longrightarrow> stage < stages self \<Longrightarrow>
   ps = get_problem_size self args1 kwargs \<Longrightarrow>
   (if stages self = 1 then best_method (bestofs s (self_id self)) ps
    else best_pipeline (bestofs s (self_id self)) ps) = None \<Longrightarrow>
   cur = current_alternative (bestofs s (self_id self)) ps \<Longrightarrow>
   alternative_at self cur stage = Inr alt \<Longrightarrow>
   n = fst (register self eid s) \<Longrightarrow>
   call_pre rt self eid args kwargs s =
     ((block_parent n (set_problem_size n ps (snd (register self eid s))))
        \<lparr>current_parents := current_parents s @ [n],
         stdout := stdout s @ [(stage, cur, ps)]\<rparr>,
      Evaluate n ps stage cur alt args1)"
  by (simp add: call_pre_def split_beta Let_def register_bestofs split: if_splits)

lemma call_pre_EvaluateD:
  assumes "call_pre rt self eid args kwargs s = (s1, Evaluate n ps stage cur alt args1)"
  shows "\<not> use_first_alternative s \<and> pop_stage rt self args = Inr (stage, args1) \<and> stage < stages self
     \<and> ps = get_problem_size self args1 kwargs
     \<and> (if stages self = 1 then best_method (bestofs s (self_id self)) ps
         else best_pipeline (bestofs s (self_id self)) ps) = None
     \<and> cur = current_alternative (bestofs s (self_id self)) ps
     \<and> alternative_at self cur stage = Inr alt
     \<and> n = fst (register self eid s)
     \<and> s1 = (block_parent n (set_problem_size n ps (snd (register self eid s))))
               \<lparr>current_parents := current_parents s @ [n],
                stdout := stdout s @ [(stage, cur, ps)]\<rparr>"
  using assms
  by (auto simp: call_pre_def split_beta Let_def register_bestofs
           split: sum.splits option.splits if_splits)


lemma is_blocked_heap: "heap s' = heap s \<Longrightarrow> is_blocked s' n = is_blocked s n"
  by (simp add: is_blocked_def)

lemma call_post_blocked:
  "current_parents s \<noteq> [] \<Longrightarrow> is_blocked s n \<Longrightarrow>
   call_post rt self n ps stage cur t out s = (s\<lparr>current_parents := butlast (current_parents s)\<rparr>, Inr out)"
  by (simp add: call_post_def Let_def is_blocked_def)

lemma append_time_frame:
  "append_time ps i t st = Inr st1 \<Longrightarrow>
     best_idx st1 = best_idx st \<and> best_name st1 = best_name st \<and> best_method st1 = best_method st
     \<and> best_pipeline st1 = best_pipeline st \<and> current_round st1 = current_round st
     \<and> current_alternative st1 = current_alternative st \<and> executions st1 = executions st
     \<and> stages_times st1 = stages_times st
     \<and> times_of st1 = (times_of st)(ps := (times_of st ps)[i := times_of st ps ! i @ [t]])
     \<and> i < length (times_of st ps)"
  by (auto simp: append_time_def split: if_splits)

lemma record_time_frame:
  assumes "record_time rt self ps stage cur t st = (st1, r)"
  shows "best_idx st1 = best_idx st \<and> best_name st1 = best_name st \<and> best_method st1 = best_method st
     \<and> best_pipeline st1 = best_pipeline st \<and> current_round st1 = current_round st
     \<and> current_alternative st1 = current_alternative st \<and> executions st1 = executions st"
  using assms
  by (auto simp: record_time_def Let_def split: if_splits sum.splits prod.splits
           dest!: append_time_frame)

lemma record_time_length:
  assumes "record_time rt self ps stage cur t st = (st1, r)"
  shows "length (times_of st1 q) = length (times_of st q)"
  using assms
  by (auto simp: record_time_def Let_def split: if_splits sum.splits prod.splits
           dest!: append_time_frame)

lemma select_best_frame:
  assumes "select_best rt self ps cur rnd st = (st2, r)"
  shows "current_round st2 = current_round st \<and> current_alternative st2 = current_alternative st
     \<and> executions st2 = executions st \<and> times_of st2 = times_of st \<and> stages_times st2 = stages_times st"
  using assms
  by (auto simp: select_best_def Let_def split: if_splits sum.splits option.splits)

lemma select_best_not_evaluated:
  "\<not> (cur = 0 \<and> rnd \<ge> min (prune_after_round self) (total_rounds self)) \<Longrightarrow>
   select_best rt self ps cur rnd st = (st, Inr (cur, False))"
  by (auto simp: select_best_def)

lemma select_best_unblock:
  assumes "select_best rt self ps cur rnd st = (st2, Inr (c, True))"
  shows "(if stages self = 1 then best_method st2 ps else best_pipeline st2 ps) \<noteq> None"
  using assms
  by (auto simp: select_best_def Let_def split: if_splits sum.splits option.splits)


lemma py_index_Some:
  "py_index xs v = Some i \<Longrightarrow> i < length xs \<and> xs ! i = v \<and> (\<forall>j<i. xs ! j \<noteq> v)"
proof (induction xs arbitrary: i)
  case Nil
  then show ?case by simp
next
  case (Cons x xs)
  show ?case
  proof (cases "x = v")
    case True
    with Cons.prems show ?thesis by simp
  next
    case False
    with Cons.prems obtain k where k: "py_index xs v = Some k" "i = Suc k"
      by auto
    from Cons.IH [OF k(1)] False k(2) show ?thesis
      by (auto simp: nth_Cons split: nat.splits)
  qed
qed

lemma py_getitem_nat:
  "py_getitem xs (int i) = Inr a \<longleftrightarrow> i < length xs \<and> a = xs ! i"
  by (auto simp: py_getitem_def py_position_def)

lemma py_getitem_nat_ok:
  "i < length xs \<Longrightarrow> py_getitem xs (int i) = Inr (xs ! i)"
  by (simp add: py_getitem_def py_position_def)

lemma select_best_consistent:
  assumes inv: "selection_consistent self st q"
      and len: "length (times_of st ps) \<le> length (alternatives self)"
      and sel: "select_best rt self ps cur rnd st = (st2, r)"
  shows "selection_consistent self st2 q"
proof (cases "cur = 0 \<and> rnd \<ge> min (prune_after_round self) (total_rounds self)")
  case False
  then have "select_best rt self ps cur rnd st = (st, Inr (cur, False))"
    by (rule select_best_not_evaluated)
  with sel inv show ?thesis by simp
next
  case True
  define best_times where "best_times = map (median rt) (times_of st ps)"
  show ?thesis
  proof (cases "py_min best_times")
    case (Inl e)
    with sel True inv show ?thesis
      by (simp add: select_best_def best_times_def)
  next
    case (Inr min_time)
    define bound where "bound = nan_mul rt min_time (pruning_speedup self)"
    show ?thesis
    proof (cases "rnd = total_rounds self \<or> length (filter (\<lambda>x. float_le x bound) best_times) = 1")
      case False
      with sel True Inr inv show ?thesis
        by (auto simp: select_best_def best_times_def bound_def Let_def)
    next
      case sel_branch: True
      show ?thesis
      proof (cases "py_index best_times min_time")
        case None
        with sel True Inr sel_branch inv show ?thesis
          by (auto simp: select_best_def best_times_def bound_def Let_def)
      next
        case (Some i)
        from py_index_Some [OF Some] have "i < length best_times" by simp
        with len have i: "i < length (alternatives self)"
          by (simp add: best_times_def)
        then have get: "py_getitem (alternatives self) (int i) = Inr (alternatives self ! i)"
          by (rule py_getitem_nat_ok)
        from sel True Inr sel_branch Some get
        have st2: "st2 = (if stages self = 1 then
                 st\<lparr>best_idx := (best_idx st)(ps := int i),
                    best_name := (best_name st)(ps := fst (alternatives self ! i)),
                    best_method := (best_method st)(ps := Some (snd (alternatives self ! i)))\<rparr>
               else
                 st\<lparr>best_idx := (best_idx st)(ps := int i),
                    best_name := (best_name st)(ps := fst (alternatives self ! i)),
                    best_pipeline := (best_pipeline st)(ps := Some (snd (alternatives self ! i)))\<rparr>)"
          by (auto simp: select_best_def best_times_def bound_def Let_def)
        show ?thesis
        proof (cases "q = ps")
          case True
          with st2 i show ?thesis
            by (simp add: selection_consistent_def)
        next
          case False
          with st2 inv show ?thesis
            by (auto simp: selection_consistent_def split: if_splits)
        qed
      qed
    qed
  qed
qed


lemma call_post_empty_stack:
  "current_parents s = [] \<Longrightarrow> call_post rt self n ps stage cur t out s = (s, Inl IndexError)"
  by (simp add: call_post_def)

lemma call_post_record_error:
  "current_parents s \<noteq> [] \<Longrightarrow> \<not> is_blocked s n \<Longrightarrow>
   record_time rt self ps stage cur t (bestofs s (self_id self)) = (st1, Inl e) \<Longrightarrow>
   call_post rt self n ps stage cur t out s =
     (s\<lparr>current_parents := butlast (current_parents s),
        bestofs := (bestofs s)(self_id self := st1)\<rparr>, Inl e)"
  by (simp add: call_post_def Let_def is_blocked_def)

lemma call_post_select_error:
  "current_parents s \<noteq> [] \<Longrightarrow> \<not> is_blocked s n \<Longrightarrow>
   record_time rt self ps stage cur t (bestofs s (self_id self)) = (st1, Inr (alt, rnd)) \<Longrightarrow>
   select_best rt self ps alt rnd st1 = (st2, Inl e) \<Longrightarrow>
   call_post rt self n ps stage cur t out s =
     (s\<lparr>current_parents := butlast (current_parents s),
        bestofs := (bestofs s)(self_id self := st2)\<rparr>, Inl e)"
  by (simp add: call_post_def Let_def is_blocked_def)

lemma unblock_parent_heap_cong:
  "heap s' = heap s \<Longrightarrow> heap (unblock_parent n s') = heap (unblock_parent n s)"
  by (simp add: unblock_parent_def is_root_def Let_def split: option.splits)

lemma call_post_recorded_eq:
  assumes "current_parents s \<noteq> []" and "\<not> is_blocked s n"
      and "record_time rt self ps stage cur t (bestofs s (self_id self)) = (st1, Inr (alt, rnd))"
      and "select_best rt self ps alt rnd st1 = (st2, Inr (alt2, unblock))"
  shows "call_post rt self n ps stage cur t out s =
     (let s1 = s\<lparr>current_parents := butlast (current_parents s),
                  bestofs := (bestofs s)(self_id self := st2)\<rparr>;
          s2 = (if unblock then unblock_parent n s1 else s1)
      in (s2\<lparr>bestofs := (bestofs s2)(self_id self := (bestofs s2 (self_id self))
               \<lparr>current_alternative := (current_alternative (bestofs s2 (self_id self)))(ps := alt2),
                current_round := (current_round (bestofs s2 (self_id self)))(ps := rnd)\<rparr>)\<rparr>,
          Inr out))"
  using assms by (simp add: call_post_def Let_def is_blocked_def)

lemma call_post_recorded:
  assumes "current_parents s \<noteq> []" and "\<not> is_blocked s n"
      and "record_time rt self ps stage cur t (bestofs s (self_id self)) = (st1, Inr (alt, rnd))"
      and "select_best rt self ps alt rnd st1 = (st2, Inr (alt2, unblock))"
      and "call_post rt self n ps stage cur t out s = (s3, r)"
  shows "r = Inr out"
    and "bestofs s3 = (bestofs s)(self_id self := st2
           \<lparr>current_alternative := (current_alternative st2)(ps := alt2),
            current_round := (current_round st2)(ps := rnd)\<rparr>)"
    and "heap s3 = (if unblock then heap (unblock_parent n s) else heap s)"
    and "current_parents s3 = butlast (current_parents s)"
    and "use_first_alternative s3 = use_first_alternative s"
    and "clock s3 = clock s" and "stdout s3 = stdout s"
proof -
  note eq = call_post_recorded_eq [OF assms(1-4), of out]
  have h: "heap (unblock_parent n (s\<lparr>current_parents := butlast (current_parents s),
                  bestofs := (bestofs s)(self_id self := st2)\<rparr>)) = heap (unblock_parent n s)"
    by (rule unblock_parent_heap_cong) simp
  from eq assms(5) show "r = Inr out"
    by (simp add: Let_def)
  from eq assms(5) show "bestofs s3 = (bestofs s)(self_id self := st2
           \<lparr>current_alternative := (current_alternative st2)(ps := alt2),
            current_round := (current_round st2)(ps := rnd)\<rparr>)"
    by (cases unblock) (auto simp: Let_def)
  from eq assms(5) h show "heap s3 = (if unblock then heap (unblock_parent n s) else heap s)"
    by (cases unblock) (auto simp: Let_def)
  from eq assms(5) show "current_parents s3 = butlast (current_parents s)"
    by (cases unblock) (auto simp: Let_def)
  from eq assms(5) show "use_first_alternative s3 = use_first_alternative s"
    by (cases unblock) (auto simp: Let_def)
  from eq assms(5) show "clock s3 = clock s"
    by (cases unblock) (auto simp: Let_def)
  from eq assms(5) show "stdout s3 = stdout s"
    by (cases unblock) (auto simp: Let_def)
qed

lemma call_post_consistent:
  assumes inv: "selection_invariant self s"
      and post: "call_post rt self n ps stage cur t out s = (s3, r)"
  shows "selection_invariant self s3"
proof (cases "current_parents s = [] \<or> is_blocked s n")
  case True
  then have "bestofs s3 = bestofs s"
    using post by (cases "current_parents s = []") (auto simp: call_post_empty_stack call_post_blocked)
  with inv show ?thesis
    by (simp add: selection_invariant_def)
next
  case False
  define st where "st = bestofs s (self_id self)"
  obtain st1 r1 where rec: "record_time rt self ps stage cur t st = (st1, r1)"
    by (cases "record_time rt self ps stage cur t st") auto
  have inv1: "selection_consistent self st1 q" and len1: "length (times_of st1 q) = length (alternatives self)" for q
    using inv record_time_frame [OF rec] record_time_length [OF rec, of q]
    by (auto simp: selection_invariant_def selection_consistent_def st_def)
  show ?thesis
  proof (cases r1)
    case (Inl e)
    with post False rec have "bestofs s3 (self_id self) = st1"
      by (auto simp: call_post_record_error st_def)
    with inv1 len1 show ?thesis
      by (simp add: selection_invariant_def)
  next
    case (Inr ar)
    obtain alt rnd where ar: "ar = (alt, rnd)" by (cases ar)
    obtain st2 r2 where sel: "select_best rt self ps alt rnd st1 = (st2, r2)"
      by (cases "select_best rt self ps alt rnd st1") auto
    have inv2: "selection_consistent self st2 q" for q
      using select_best_consistent [OF inv1 _ sel] len1 by simp
    have len2: "length (times_of st2 q) = length (alternatives self)" for q
      using select_best_frame [OF sel] len1 by simp
    have "\<exists>c d. bestofs s3 (self_id self) = st2 \<or>
            bestofs s3 (self_id self) = st2\<lparr>current_alternative := c, current_round := d\<rparr>"
    proof (cases r2)
      case (Inl e)
      with post False rec Inr ar sel show ?thesis
        by (auto simp: call_post_select_error st_def)
    next
      case r2: (Inr au)
      obtain alt2 unblock where "au = (alt2, unblock)" by (cases au)
      with post False rec Inr ar sel r2 show ?thesis
        using call_post_recorded(2) [of s n rt self ps stage cur t st1 alt rnd st2 alt2 unblock out s3 r]
        by (auto simp: st_def)
    qed
    with inv2 len2 show ?thesis
      by (auto simp: selection_invariant_def selection_consistent_def)
  qed
qed

lemma call_pre_invariant:
  "selection_invariant self (fst (call_pre rt self eid args kwargs s)) = selection_invariant self s"
  by (simp add: selection_invariant_def selection_consistent_def call_pre_bestofs register_bestofs)

subsection \<open>Registration\<close>

lemma register_heap_frame:
  assumes "m \<noteq> next_ref s"
  shows "blocked_by (heap (snd (register self eid s)) m) = blocked_by (heap s m)
       \<and> current_problem_size (heap (snd (register self eid s)) m) = current_problem_size (heap s m)
       \<and> problem_sizes (heap (snd (register self eid s)) m) = problem_sizes (heap s m)
       \<and> parent (heap (snd (register self eid s)) m) = parent (heap s m)"
  using assms
  by (simp add: register_def BestOfExecution_init_def Let_def split_beta split: option.splits)

lemma register_frame:
  assumes "s1 = snd (register self eid s)"
  shows "best_idx (bestofs s1 (self_id self)) = best_idx (bestofs s (self_id self))
       \<and> best_name (bestofs s1 (self_id self)) = best_name (bestofs s (self_id self))
       \<and> best_method (bestofs s1 (self_id self)) = best_method (bestofs s (self_id self))
       \<and> best_pipeline (bestofs s1 (self_id self)) = best_pipeline (bestofs s (self_id self))
       \<and> current_round (bestofs s1 (self_id self)) = current_round (bestofs s (self_id self))
       \<and> current_alternative (bestofs s1 (self_id self)) = current_alternative (bestofs s (self_id self))
       \<and> times_of (bestofs s1 (self_id self)) = times_of (bestofs s (self_id self))
       \<and> stages_times (bestofs s1 (self_id self)) = stages_times (bestofs s (self_id self))
       \<and> (\<forall>j. j \<noteq> self_id self \<longrightarrow> bestofs s1 j = bestofs s j)
       \<and> use_first_alternative s1 = use_first_alternative s
       \<and> current_parents s1 = current_parents s \<and> clock s1 = clock s \<and> stdout s1 = stdout s
       \<and> (\<forall>m. m \<noteq> next_ref s \<longrightarrow>
             blocked_by (heap s1 m) = blocked_by (heap s m)
             \<and> current_problem_size (heap s1 m) = current_problem_size (heap s m)
             \<and> problem_sizes (heap s1 m) = problem_sizes (heap s m))
       \<and> (executions (bestofs s (self_id self)) eid \<noteq> None \<longrightarrow> s1 = s)"
  using assms register_heap_frame [of _ s self eid]
  by (auto simp: register_bestofs register_known)

subsection \<open>Blocking\<close>

lemma dict_set_member: "(k, v) \<in> set (dict_set d k v)"
proof (cases "k \<in> fst ` set d")
  case True
  then obtain b where "(k, b) \<in> set d" by auto
  then have "(\<lambda>(k', v'). if k' = k then (k', v) else (k', v')) (k, b)
               \<in> (\<lambda>(k', v'). if k' = k then (k', v) else (k', v')) ` set d"
    by (rule imageI)
  with True show ?thesis by (simp add: dict_set_def)
next
  case False
  then show ?thesis by (simp add: dict_set_def)
qed

lemma dict_pop_absent: "k \<notin> fst ` set (dict_pop d k)"
  by (auto simp: dict_pop_def)

lemma block_parent_marks:
  assumes "parent (heap s n) = Some p" and "\<not> is_root s p"
  shows "(n, True) \<in> set (blocked_by (heap (block_parent n s) p)
                              (current_problem_size (heap (block_parent n s) p)))"
  using assms by (simp add: block_parent_def Let_def dict_set_member)

lemma block_parent_parent:
  "parent (heap (block_parent n s) m) = parent (heap s m)"
  by (simp add: block_parent_def Let_def split: option.splits)

lemma unblock_parent_clears:
  assumes "parent (heap s n) = Some p" and "\<not> is_root s p"
  shows "n \<notin> fst ` set (blocked_by (heap (unblock_parent n s) p) (current_problem_size (heap s p)))"
  using assms dict_pop_absent [of n]
  by (simp add: unblock_parent_def Let_def)

lemma call_post_heap:
  assumes post: "call_post rt self n ps stage cur t out s = (s3, r)"
  shows "heap s3 = heap s
       \<or> heap s3 = heap (unblock_parent n s)
          \<and> (if stages self = 1 then best_method (bestofs s3 (self_id self)) ps
              else best_pipeline (bestofs s3 (self_id self)) ps) \<noteq> None"
proof (cases "current_parents s = []")
  case True
  with post show ?thesis by (simp add: call_post_empty_stack)
next
  case stack: False
  show ?thesis
  proof (cases "is_blocked s n")
    case True
    with post stack show ?thesis by (auto simp: call_post_blocked)
  next
    case free: False
    obtain st1 r1 where rec: "record_time rt self ps stage cur t (bestofs s (self_id self)) = (st1, r1)"
      by (cases "record_time rt self ps stage cur t (bestofs s (self_id self))") auto
    show ?thesis
    proof (cases r1)
      case (Inl e)
      with post stack free rec show ?thesis by (auto simp: call_post_record_error)
    next
      case (Inr ar)
      obtain alt rnd where ar: "ar = (alt, rnd)" by (cases ar)
      obtain st2 r2 where sel: "select_best rt self ps alt rnd st1 = (st2, r2)"
        by (cases "select_best rt self ps alt rnd st1") auto
      show ?thesis
      proof (cases r2)
        case (Inl e)
        with post stack free rec Inr ar sel show ?thesis by (auto simp: call_post_select_error)
      next
        case r2: (Inr au)
        obtain alt2 unblock where au: "au = (alt2, unblock)" by (cases au)
        note facts = call_post_recorded [OF stack free rec [unfolded Inr ar] sel [unfolded r2 au] post]
        show ?thesis
        proof (cases unblock)
          case False
          with facts(3) show ?thesis by simp
        next
          case True
          from sel r2 au True have "select_best rt self ps alt rnd st1 = (st2, Inr (alt2, True))"
            by simp
          from select_best_unblock [OF this]
          have "(if stages self = 1 then best_method st2 ps else best_pipeline st2 ps) \<noteq> None" .
          with facts(2,3) True show ?thesis by (auto split: if_splits)
        qed
      qed
    qed
  qed
qed

subsection \<open>The pruning decision\<close>

lemma median_sampled:
  assumes "x \<noteq> []"
  shows "median rt x = Some (the (median rt x))"
proof -
  from assms have "length (sort x) \<noteq> 0" by simp
  then show ?thesis
    unfolding median_def Let_def by (simp del: length_sort)
qed

lemma fold_min_finite:
  "fold (\<lambda>y m. if float_lt y m then y else m) (map Some ys) (Some a) = Some (Min (insert a (set ys)))"
proof (induction ys arbitrary: a)
  case Nil
  show ?case by simp
next
  case (Cons y ys)
  have "Min (insert (if y < a then y else a) (set ys)) = Min (insert a (insert y (set ys)))"
  proof (cases "set ys = {}")
    case True
    then show ?thesis by (simp add: min_def)
  next
    case False
    then have "Min (insert a (insert y (set ys))) = min a (min y (Min (set ys)))"
      and "Min (insert b (set ys)) = min b (Min (set ys))" for b
      by simp_all
    then show ?thesis
      by (simp add: min_def)
  qed
  with Cons.IH [of "if y < a then y else a"] show ?case
    by (simp split: if_splits)
qed

lemma py_min_finite:
  assumes "ys \<noteq> []"
  shows "py_min (map Some ys) = Inr (Some (Min (set ys)))"
proof -
  from assms obtain a zs where "ys = a # zs" by (cases ys) auto
  then show ?thesis by (simp add: fold_min_finite)
qed


lemma py_index_member: "v \<in> set xs \<Longrightarrow> \<exists>i. py_index xs v = Some i"
  by (induction xs) auto

lemma best_times_finite:
  assumes "\<forall>x\<in>set T. x \<noteq> []"
  shows "map (median rt) T = map Some (map (\<lambda>x. the (median rt x)) T)"
  using assms by (simp add: median_sampled [symmetric])

lemma medians_set:
  "set (map (\<lambda>x. the (median rt x)) (times_of st ps)) = median_at rt st ps ` {..<length (times_of st ps)}"
proof -
  have "set (times_of st ps) = (\<lambda>j. times_of st ps ! j) ` {..<length (times_of st ps)}"
    by (auto simp: set_conv_nth)
  then have "(\<lambda>x. the (median rt x)) ` set (times_of st ps)
               = (\<lambda>x. the (median rt x)) ` (\<lambda>j. times_of st ps ! j) ` {..<length (times_of st ps)}"
    by simp
  then show ?thesis
    by (simp add: image_image median_at_def [abs_def])
qed

lemma medians_nth:
  "j < length (times_of st ps) \<Longrightarrow> map (\<lambda>x. the (median rt x)) (times_of st ps) ! j = median_at rt st ps j"
  by (simp add: median_at_def)

lemma below_count:
  "length (filter (\<lambda>x. float_le x (nan_mul rt (Some m) sp)) (map Some (map (\<lambda>x. the (median rt x)) (times_of st ps))))
     = card {j. j < length (times_of st ps) \<and> median_at rt st ps j \<le> float_mul rt m sp}"
proof -
  have "filter (\<lambda>x. float_le x (nan_mul rt (Some m) sp)) (map Some (map (\<lambda>x. the (median rt x)) (times_of st ps)))
          = map Some (filter (\<lambda>v. v \<le> float_mul rt m sp) (map (\<lambda>x. the (median rt x)) (times_of st ps)))"
    by (simp add: filter_map comp_def)
  then have "length (filter (\<lambda>x. float_le x (nan_mul rt (Some m) sp)) (map Some (map (\<lambda>x. the (median rt x)) (times_of st ps))))
          = length (filter (\<lambda>v. v \<le> float_mul rt m sp) (map (\<lambda>x. the (median rt x)) (times_of st ps)))"
    by simp
  also have "\<dots> = card {j. j < length (map (\<lambda>x. the (median rt x)) (times_of st ps))
                          \<and> map (\<lambda>x. the (median rt x)) (times_of st ps) ! j \<le> float_mul rt m sp}"
    by (rule length_filter_conv_card)
  also have "\<dots> = card {j. j < length (times_of st ps) \<and> median_at rt st ps j \<le> float_mul rt m sp}"
    by (rule arg_cong [where f = card]) (auto simp: median_at_def)
  finally show ?thesis .
qed

lemma min_median_le:
  "j < length (times_of st ps) \<Longrightarrow> min_median rt st ps \<le> median_at rt st ps j"
  by (simp add: min_median_def)

lemma first_below_head:
  assumes "0 < length bt" and "float_le (bt ! 0) bound"
  shows "first_below bt bound 0 = 0"
proof -
  from assms(1) have "[0..<length bt] = 0 # [Suc 0..<length bt]"
    by (simp add: upt_conv_Cons)
  with assms(2) show ?thesis
    by (simp add: first_below_def)
qed

lemma select_best_unfold:
  assumes "min (prune_after_round self) (total_rounds self) \<le> rnd"
      and "py_min (map (median rt) (times_of st ps)) = Inr (Some m)"
      and "py_index (map (median rt) (times_of st ps)) (Some m) = Some i"
      and "i < length (alternatives self)"
  shows "select_best rt self ps 0 rnd st =
           (if rnd = total_rounds self
                 \<or> length (filter (\<lambda>x. float_le x (Some (float_mul rt m (pruning_speedup self))))
                             (map (median rt) (times_of st ps))) = 1 then
              ((if stages self = 1 then
                  st\<lparr>best_idx := (best_idx st)(ps := int i),
                     best_name := (best_name st)(ps := fst (alternatives self ! i)),
                     best_method := (best_method st)(ps := Some (snd (alternatives self ! i)))\<rparr>
                else
                  st\<lparr>best_idx := (best_idx st)(ps := int i),
                     best_name := (best_name st)(ps := fst (alternatives self ! i)),
                     best_pipeline := (best_pipeline st)(ps := Some (snd (alternatives self ! i)))\<rparr>),
               Inr (0, True))
            else
              (st, Inr (first_below (map (median rt) (times_of st ps))
                          (Some (float_mul rt m (pruning_speedup self))) 0, False)))"
proof -
  have get: "py_getitem (alternatives self) (int i) = Inr (alternatives self ! i)"
    using assms(4) by (rule py_getitem_nat_ok)
  show ?thesis
    unfolding select_best_def
    using assms(1) by (simp add: assms(2,3) get Let_def del: py_min.simps py_index.simps)
qed


lemma medians_finite:
  assumes sampled: "\<forall>x\<in>set (times_of st ps). x \<noteq> []" and len: "length (times_of st ps) = length (alternatives self)"
      and ne: "alternatives self \<noteq> []" and "ms = map (\<lambda>x. the (median rt x)) (times_of st ps)"
  shows "map (median rt) (times_of st ps) = map Some ms" "ms \<noteq> []" "Min (set ms) = min_median rt st ps"
proof -
  show bt: "map (median rt) (times_of st ps) = map Some ms"
    using best_times_finite [OF sampled] by (simp add: assms(4))
  show ms_ne: "ms \<noteq> []"
    using len ne by (auto simp: assms(4))
  show mm: "Min (set ms) = min_median rt st ps"
    unfolding assms(4) medians_set min_median_def ..
qed


lemma py_min_medians:
  assumes sampled: "\<forall>x\<in>set (times_of st ps). x \<noteq> []" and len: "length (times_of st ps) = length (alternatives self)"
      and ne: "alternatives self \<noteq> []"
  shows "py_min (map (median rt) (times_of st ps)) = Inr (Some (min_median rt st ps))"
    and "\<exists>i. py_index (map (median rt) (times_of st ps)) (Some (min_median rt st ps)) = Some i"
proof -
  define ms where "ms = map (\<lambda>x. the (median rt x)) (times_of st ps)"
  note f = medians_finite [OF sampled len ne ms_def]
  from py_min_finite [OF f(2)] show "py_min (map (median rt) (times_of st ps)) = Inr (Some (min_median rt st ps))"
    unfolding f(1) f(3) .
  have "min_median rt st ps \<in> set ms"
    using Min_in [of "set ms"] f(2,3) by simp
  then have "Some (min_median rt st ps) \<in> set (map (median rt) (times_of st ps))"
    unfolding f(1) by simp
  then show "\<exists>i. py_index (map (median rt) (times_of st ps)) (Some (min_median rt st ps)) = Some i"
    by (rule py_index_member)
qed

lemma medians_nth_some:
  assumes sampled: "\<forall>x\<in>set (times_of st ps). x \<noteq> []" and "j < length (times_of st ps)"
  shows "map (median rt) (times_of st ps) ! j = Some (median_at rt st ps j)"
  using assms by (simp add: median_at_def median_sampled [symmetric])


lemma below_count_live:
  assumes sampled: "\<forall>x\<in>set (times_of st ps). x \<noteq> []"
      and len: "length (times_of st ps) = length (alternatives self)"
  shows "length (filter (\<lambda>x. float_le x (Some (float_mul rt (min_median rt st ps) (pruning_speedup self))))
                 (map (median rt) (times_of st ps)))
             = card {j. j < length (alternatives self) \<and> live rt self st ps j}"
proof -
  have eq: "map (median rt) (times_of st ps) = map Some (map (\<lambda>x. the (median rt x)) (times_of st ps))"
    using sampled by (rule best_times_finite)
  have "length (filter (\<lambda>x. float_le x (Some (float_mul rt (min_median rt st ps) (pruning_speedup self))))
                 (map (median rt) (times_of st ps)))
      = length (filter (\<lambda>x. float_le x (nan_mul rt (Some (min_median rt st ps)) (pruning_speedup self)))
                 (map Some (map (\<lambda>x. the (median rt x)) (times_of st ps))))"
    by (subst eq) (simp only: nan_mul.simps)
  also have "\<dots> = card {j. j < length (times_of st ps)
                         \<and> median_at rt st ps j \<le> float_mul rt (min_median rt st ps) (pruning_speedup self)}"
    by (rule below_count)
  finally show ?thesis
    unfolding live_def len .
qed


lemma select_best_evaluated:
  assumes dec: "min (prune_after_round self) (total_rounds self) \<le> rnd"
      and len: "length (times_of st ps) = length (alternatives self)"
      and ne: "alternatives self \<noteq> []"
      and sampled: "\<forall>x\<in>set (times_of st ps). x \<noteq> []"
  shows "\<exists>i<length (alternatives self).
           median_at rt st ps i = min_median rt st ps \<and> (\<forall>j<i. median_at rt st ps j \<noteq> min_median rt st ps)
           \<and> select_best rt self ps 0 rnd st =
               (if rnd = total_rounds self
                     \<or> card {j. j < length (alternatives self) \<and> live rt self st ps j} = 1 then
                  ((if stages self = 1 then
                      st\<lparr>best_idx := (best_idx st)(ps := int i),
                         best_name := (best_name st)(ps := fst (alternatives self ! i)),
                         best_method := (best_method st)(ps := Some (snd (alternatives self ! i)))\<rparr>
                    else
                      st\<lparr>best_idx := (best_idx st)(ps := int i),
                         best_name := (best_name st)(ps := fst (alternatives self ! i)),
                         best_pipeline := (best_pipeline st)(ps := Some (snd (alternatives self ! i)))\<rparr>),
                   Inr (0, True))
                else
                  (st, Inr (first_below (map (median rt) (times_of st ps))
                              (Some (float_mul rt (min_median rt st ps) (pruning_speedup self))) 0, False)))"
proof -
  note pmin = py_min_medians(1) [where rt = rt, OF sampled len ne]
  from py_min_medians(2) [where rt = rt, OF sampled len ne]
  obtain i where i: "py_index (map (median rt) (times_of st ps)) (Some (min_median rt st ps)) = Some i" ..
  note ix = py_index_Some [OF i]
  from ix have i_len: "i < length (times_of st ps)"
    by simp
  then have i_K: "i < length (alternatives self)"
    using len by simp
  from ix have i_min: "map (median rt) (times_of st ps) ! i = Some (min_median rt st ps)"
    by (rule conjunct1 [OF conjunct2])
  from ix have i_first: "\<forall>j<i. map (median rt) (times_of st ps) ! j \<noteq> Some (min_median rt st ps)"
    by (rule conjunct2 [OF conjunct2])
  note sel = select_best_unfold [OF dec pmin i i_K, unfolded below_count_live [where rt = rt, OF sampled len]]
  have a: "median_at rt st ps i = min_median rt st ps"
    using i_min medians_nth_some [where rt = rt, OF sampled i_len] by simp
  have b: "\<forall>j<i. median_at rt st ps j \<noteq> min_median rt st ps"
  proof (intro allI impI)
    fix j assume ji: "j < i"
    with i_len have "j < length (times_of st ps)" by simp
    from medians_nth_some [where rt = rt, OF sampled this] i_first ji show "median_at rt st ps j \<noteq> min_median rt st ps"
      by auto
  qed
  from i_K a b sel show ?thesis
    by (intro exI [of _ i] conjI)
qed

subsection \<open>One call at a registered site\<close>

lemma block_parent_other:
  assumes "parent (heap s n) \<noteq> Some m"
  shows "heap (block_parent n s) m = heap s m"
  using assms by (auto simp: block_parent_def Let_def split: option.splits)

lemma unblock_parent_other:
  assumes "parent (heap s n) \<noteq> Some m"
  shows "heap (unblock_parent n s) m = heap s m"
  using assms by (auto simp: unblock_parent_def Let_def split: option.splits)

lemma set_problem_size_node:
  "parent (heap (set_problem_size n ps s) m) = parent (heap s m)"
  "blocked_by (heap (set_problem_size n ps s) m) = blocked_by (heap s m)"
  "current_problem_size (heap (set_problem_size n ps s) n) = Some ps"
  by (simp_all add: set_problem_size_def)

lemma evaluate_at_site:
  assumes site: "at_site self eid ps n s"
      and stage: "pop_stage rt self args = Inr (stage, args1)" "stage < stages self"
      and ps: "ps = get_problem_size self args1 kwargs"
      and nocache: "(if stages self = 1 then best_method (bestofs s (self_id self)) ps
                     else best_pipeline (bestofs s (self_id self)) ps) = None"
      and cur: "cur = current_alternative (bestofs s (self_id self)) ps"
      and alt: "alternative_at self cur stage = Inr (Method f)"
      and run: "\<And>w. invoke f args1 kwargs w = (w\<lparr>clock := clock w + t\<rparr>, Inr out)"
      and rec: "record_time rt self ps stage cur (float_sub rt (clock s + t) (clock s))
                  (bestofs s (self_id self)) = (st1, Inr (alt', rnd))"
      and sel: "select_best rt self ps alt' rnd st1 = (st2, Inr (alt2, u))"
      and res: "bestof_call rt invoke self eid args kwargs s = (s3, r)"
  shows "r = Inr out"
    and "bestofs s3 = (bestofs s)(self_id self := st2
           \<lparr>current_alternative := (current_alternative st2)(ps := alt2),
            current_round := (current_round st2)(ps := rnd)\<rparr>)"
    and "at_site self eid ps n s3"
    and "current_parents s3 = current_parents s"
    and "stdout s3 = stdout s @ [(stage, cur, ps)]"
proof -
  from site have flag: "\<not> use_first_alternative s"
    and known: "executions (bestofs s (self_id self)) eid = Some n"
    and par: "parent (heap s n) \<noteq> Some n"
    and unb: "True \<notin> snd ` set (blocked_by (heap s n) (Some ps))"
    by (simp_all add: at_site_def)
  have reg: "register self eid s = (n, s)"
    using known by (rule register_known)
  define s0 where "s0 = set_problem_size n ps s"
  define s1 where "s1 = (block_parent n s0)\<lparr>current_parents := current_parents s @ [n],
                           stdout := stdout s @ [(stage, cur, ps)]\<rparr>"
  have pre: "call_pre rt self eid args kwargs s = (s1, Evaluate n ps stage cur (Method f) args1)"
    using call_pre_evaluate [OF flag stage ps nocache cur alt, of n eid] reg
    by (simp add: s1_def s0_def)
  define s2 where "s2 = s1\<lparr>clock := clock s1 + t\<rparr>"
  have callee: "call_callee invoke (Method f) args1 kwargs s1 = (s2, Inr out)"
    by (simp add: call_callee_def run s2_def)
  have par0: "parent (heap s0 n) \<noteq> Some n"
    using par by (simp add: s0_def set_problem_size_node)
  have node2: "heap s2 n = heap s0 n"
    using block_parent_other [OF par0] by (simp add: s2_def s1_def)
  have stack2: "current_parents s2 \<noteq> []"
    by (simp add: s2_def s1_def)
  have free2: "\<not> is_blocked s2 n"
    using unb by (simp add: is_blocked_def node2 s0_def set_problem_size_node)
  have best2: "bestofs s2 = bestofs s"
    by (simp add: s2_def s1_def s0_def)
  have clock1: "clock s1 = clock s"
    by (simp add: s1_def s0_def)
  have post: "call_post rt self n ps stage cur (float_sub rt (clock s + t) (clock s)) out s2 = (s3, r)"
    using res pre callee by (simp add: bestof_call_def s2_def clock1)
  note facts = call_post_recorded [OF stack2 free2 rec [folded best2] sel post]
  from facts(1) show "r = Inr out" .
  from facts(2) show "bestofs s3 = (bestofs s)(self_id self := st2
           \<lparr>current_alternative := (current_alternative st2)(ps := alt2),
            current_round := (current_round st2)(ps := rnd)\<rparr>)"
    by (simp add: best2)
  from facts(4) show "current_parents s3 = current_parents s"
    by (simp add: s2_def s1_def)
  from facts(7) show "stdout s3 = stdout s @ [(stage, cur, ps)]"
    by (simp add: s2_def s1_def)
  have par2: "parent (heap s2 n) \<noteq> Some n"
    using par0 by (simp add: node2)
  have node3: "heap s3 n = heap s2 n"
    using facts(3) unblock_parent_other [OF par2] by (simp split: if_splits)
  have ex3: "executions (bestofs s3 (self_id self)) eid = Some n"
    using facts(2) select_best_frame [OF sel] record_time_frame [OF rec] known
    by (simp add: best2)
  have flag3: "\<not> use_first_alternative s3"
    using facts(5) flag by (simp add: s2_def s1_def s0_def)
  have "heap s3 n = heap s0 n"
    using node3 node2 by simp
  then have "parent (heap s3 n) = parent (heap s n)"
    and "blocked_by (heap s3 n) = blocked_by (heap s n)"
    by (simp_all add: s0_def set_problem_size_node)
  with flag3 ex3 par unb show "at_site self eid ps n s3"
    by (simp add: at_site_def)
qed

subsection \<open>What the return of a call does to the tree and to the cache\<close>

lemma select_best_cache_frame:
  assumes "select_best rt self ps cur rnd st = (st2, r)"
      and "r \<noteq> Inr (cur, True)"
  shows "best_method st2 = best_method st \<and> best_pipeline st2 = best_pipeline st"
  using assms
  by (auto simp: select_best_def Let_def split: if_splits sum.splits option.splits)

lemma call_post_tree:
  assumes post: "call_post rt self n ps stage cur t out s = (s3, r)"
  shows "heap s3 = (if selects rt self n ps stage cur t s then heap (unblock_parent n s) else heap s)"
    and "selects rt self n ps stage cur t s \<Longrightarrow>
           (if stages self = 1 then best_method (bestofs s3 (self_id self)) ps
            else best_pipeline (bestofs s3 (self_id self)) ps) \<noteq> None"
    and "\<not> selects rt self n ps stage cur t s \<Longrightarrow>
           best_method (bestofs s3 (self_id self)) = best_method (bestofs s (self_id self))
           \<and> best_pipeline (bestofs s3 (self_id self)) = best_pipeline (bestofs s (self_id self))"
proof -
  have all: "heap s3 = (if selects rt self n ps stage cur t s then heap (unblock_parent n s) else heap s)
      \<and> (selects rt self n ps stage cur t s \<longrightarrow>
           (if stages self = 1 then best_method (bestofs s3 (self_id self)) ps
            else best_pipeline (bestofs s3 (self_id self)) ps) \<noteq> None)
      \<and> (\<not> selects rt self n ps stage cur t s \<longrightarrow>
           best_method (bestofs s3 (self_id self)) = best_method (bestofs s (self_id self))
           \<and> best_pipeline (bestofs s3 (self_id self)) = best_pipeline (bestofs s (self_id self)))"
  proof (cases "current_parents s = []")
    case True
    with post show ?thesis by (simp add: call_post_empty_stack selects_def)
  next
    case stack: False
    show ?thesis
    proof (cases "is_blocked s n")
      case True
      with post stack show ?thesis by (auto simp: call_post_blocked selects_def)
    next
      case free: False
      obtain st1 r1 where rec: "record_time rt self ps stage cur t (bestofs s (self_id self)) = (st1, r1)"
        by (cases "record_time rt self ps stage cur t (bestofs s (self_id self))") auto
      note rf = record_time_frame [OF rec]
      show ?thesis
      proof (cases r1)
        case (Inl e)
        with post stack free rec rf show ?thesis
          by (auto simp: call_post_record_error selects_def)
      next
        case (Inr ar)
        obtain alt rnd where ar: "ar = (alt, rnd)" by (cases ar)
        obtain st2 r2 where sel: "select_best rt self ps alt rnd st1 = (st2, r2)"
          by (cases "select_best rt self ps alt rnd st1") auto
        show ?thesis
        proof (cases r2)
          case (Inl e)
          then have "r2 \<noteq> Inr (alt, True)" by simp
          from select_best_cache_frame [OF sel this] post stack free rec Inr ar sel Inl rf
          show ?thesis
            by (auto simp: call_post_select_error selects_def)
        next
          case r2: (Inr au)
          obtain alt2 unblock where au: "au = (alt2, unblock)" by (cases au)
          note facts = call_post_recorded [OF stack free rec [unfolded Inr ar] sel [unfolded r2 au] post]
          have s_eq: "selects rt self n ps stage cur t s = unblock"
            using stack free rec Inr ar sel r2 au by (simp add: selects_def)
          show ?thesis
          proof (cases unblock)
            case False
            with sel r2 au have "r2 \<noteq> Inr (alt, True)" by simp
            from select_best_cache_frame [OF sel this] facts(2,3) rf s_eq False
            show ?thesis by simp
          next
            case True
            from sel r2 au True have "select_best rt self ps alt rnd st1 = (st2, Inr (alt2, True))"
              by simp
            from select_best_unblock [OF this]
            have "(if stages self = 1 then best_method st2 ps else best_pipeline st2 ps) \<noteq> None" .
            with facts(2,3) True s_eq show ?thesis by (auto split: if_splits)
          qed
        qed
      qed
    qed
  qed
  from all show "heap s3 = (if selects rt self n ps stage cur t s then heap (unblock_parent n s) else heap s)"
    by simp
  from all show "selects rt self n ps stage cur t s \<Longrightarrow>
           (if stages self = 1 then best_method (bestofs s3 (self_id self)) ps
            else best_pipeline (bestofs s3 (self_id self)) ps) \<noteq> None"
    by simp
  from all show "\<not> selects rt self n ps stage cur t s \<Longrightarrow>
           best_method (bestofs s3 (self_id self)) = best_method (bestofs s (self_id self))
           \<and> best_pipeline (bestofs s3 (self_id self)) = best_pipeline (bestofs s (self_id self))"
    by simp
qed

section \<open>The claims\<close>

text \<open>
  C2. A call whose node is still blocked by one of its children when the chosen alternative
  returns gives back the alternative's result and records nothing: the world it leaves is
  the world the alternative left, with only the stack of running evaluations popped, and
  what the call did before the alternative ran changed no sample, stage buffer, cursor or
  round counter of the instance.
\<close>

theorem blocked_call_records_nothing:
  assumes pre: "call_pre rt self eid args kwargs s = (s1, Evaluate n ps stage cur alt args1)"
      and run: "call_callee invoke alt args1 kwargs s1 = (s2, Inr out)"
      and stack: "current_parents s2 \<noteq> []"
      and blocked: "is_blocked s2 n"
  shows "bestof_call rt invoke self eid args kwargs s
           = (s2\<lparr>current_parents := butlast (current_parents s2)\<rparr>, Inr out)
       \<and> times_of (bestofs s1 (self_id self)) = times_of (bestofs s (self_id self))
       \<and> stages_times (bestofs s1 (self_id self)) = stages_times (bestofs s (self_id self))
       \<and> current_alternative (bestofs s1 (self_id self)) = current_alternative (bestofs s (self_id self))
       \<and> current_round (bestofs s1 (self_id self)) = current_round (bestofs s (self_id self))"
proof -
  have "bestofs s1 = bestofs (snd (register self eid s))"
    using call_pre_bestofs [of rt self eid args kwargs s] pre by simp
  then have frame: "times_of (bestofs s1 (self_id self)) = times_of (bestofs s (self_id self))"
      "stages_times (bestofs s1 (self_id self)) = stages_times (bestofs s (self_id self))"
      "current_alternative (bestofs s1 (self_id self)) = current_alternative (bestofs s (self_id self))"
      "current_round (bestofs s1 (self_id self)) = current_round (bestofs s (self_id self))"
    by (simp_all add: register_bestofs)
  have "bestof_call rt invoke self eid args kwargs s
          = call_post rt self n ps stage cur (float_sub rt (clock s2) (clock s1)) out s2"
    using pre run by (simp add: bestof_call_def)
  with stack blocked frame show ?thesis
    by (simp add: call_post_blocked)
qed

theorem blocked_call_records_nothing_witness:
  "is_blocked (fst (call_callee nested_invoke (Method 2) [] ()
                     (fst (call_pre exact outer 0 [] () two_bestofs)))) 3
   \<and> snd (bestof_call exact nested_invoke outer 0 [] () two_bestofs) = Inr 0
   \<and> times_of (bestofs (fst (bestof_call exact nested_invoke outer 0 [] () two_bestofs)) 2) 0 = [[], []]
   \<and> current_alternative (bestofs (fst (bestof_call exact nested_invoke outer 0 [] () two_bestofs)) 2) 0 = 0
   \<and> current_round (bestofs (fst (bestof_call exact nested_invoke outer 0 [] () two_bestofs)) 2) 0 = 0"
proof -
  define s1 where "s1 = fst (call_pre exact outer 0 [] () two_bestofs)"
  define s2 where "s2 = fst (call_callee nested_invoke (Method 2) [] () s1)"
  have "snd (call_pre exact outer 0 [] () two_bestofs) = Evaluate 3 0 0 0 (Method 2) []"
    by code_simp
  then have pre: "call_pre exact outer 0 [] () two_bestofs = (s1, Evaluate 3 0 0 0 (Method 2) [])"
    by (simp add: s1_def prod_eq_iff)
  have "snd (call_callee nested_invoke (Method 2) [] () s1) = Inr 0"
    unfolding s1_def by code_simp
  then have run: "call_callee nested_invoke (Method 2) [] () s1 = (s2, Inr 0)"
    by (simp add: s2_def prod_eq_iff)
  have stack: "current_parents s2 \<noteq> []"
    unfolding s2_def s1_def by code_simp
  have blocked: "is_blocked s2 3"
    unfolding s2_def s1_def by code_simp
  have vals: "times_of (bestofs s2 2) 0 = [[], []]"
      "current_alternative (bestofs s2 2) 0 = 0" "current_round (bestofs s2 2) 0 = 0"
    unfolding s2_def s1_def by code_simp+
  from blocked_call_records_nothing [OF pre run stack blocked] blocked vals
  show ?thesis
    by (simp add: s2_def s1_def)
qed

text \<open>
  C5, as the code has it. When a call starts with a selection cached for its problem size,
  the global switch off and a stage with \<open>0 \<le> stage < stages\<close>, it does nothing but
  register its node, note the problem size at the node and run the cached callable (the
  function of the stage, for a pipeline): the result and the final world are those of that
  callable, and before it runs the samples, stage buffers, cursor, round counter and the
  cached selection itself are what they were, nothing is printed and no time is read.
\<close>

theorem cached_call_bypasses_tuning:
  assumes "\<not> use_first_alternative s"
      and "pop_stage rt self args = Inr (stage, args1)"
      and "0 \<le> stage" and "stage < stages self"
      and "ps = get_problem_size self args1 kwargs"
      and "stages self = 1 \<and> best_method (bestofs s (self_id self)) ps = Some (Method f)
           \<or> stages self \<noteq> 1 \<and> best_pipeline (bestofs s (self_id self)) ps = Some (Pipeline ms)
              \<and> int (length ms) = stages self \<and> f = ms ! nat stage"
      and "s1 = set_problem_size (fst (register self eid s)) ps (snd (register self eid s))"
  shows "bestof_call rt invoke self eid args kwargs s = invoke f args1 kwargs s1
       \<and> times_of (bestofs s1 (self_id self)) = times_of (bestofs s (self_id self))
       \<and> stages_times (bestofs s1 (self_id self)) = stages_times (bestofs s (self_id self))
       \<and> current_alternative (bestofs s1 (self_id self)) = current_alternative (bestofs s (self_id self))
       \<and> current_round (bestofs s1 (self_id self)) = current_round (bestofs s (self_id self))
       \<and> best_idx (bestofs s1 (self_id self)) = best_idx (bestofs s (self_id self))
       \<and> best_name (bestofs s1 (self_id self)) = best_name (bestofs s (self_id self))
       \<and> best_method (bestofs s1 (self_id self)) = best_method (bestofs s (self_id self))
       \<and> best_pipeline (bestofs s1 (self_id self)) = best_pipeline (bestofs s (self_id self))
       \<and> stdout s1 = stdout s \<and> clock s1 = clock s \<and> current_parents s1 = current_parents s"
proof -
  have sub: "stages self \<noteq> 1 \<Longrightarrow> int (length ms) = stages self \<Longrightarrow> f = ms ! nat stage \<Longrightarrow>
      subscript (Pipeline ms) stage = Inr (Method f)"
    using assms(3,4) by (simp add: subscript_def py_getitem_def py_position_def)
  have "call_pre rt self eid args kwargs s = (s1, Direct (Method f) args1)"
    using assms sub
    by (auto simp: call_pre_cached_method call_pre_cached_pipeline)
  then have "bestof_call rt invoke self eid args kwargs s = invoke f args1 kwargs s1"
    by (simp add: bestof_call_def call_callee_def)
  then show ?thesis
    using assms(7) by (simp add: register_bestofs)
qed

theorem cached_call_bypasses_tuning_witness:
  "best_method (bestofs duo_selected 1) 0 = Some (Method 0)
   \<and> \<not> use_first_alternative duo_selected
   \<and> snd (bestof_call exact (timed_invoke (\<lambda>_. 1)) duo 0 [] () duo_selected) = Inr 0
   \<and> times_of (bestofs (fst (bestof_call exact (timed_invoke (\<lambda>_. 1)) duo 0 [] () duo_selected)) 1) 0
       = times_of (bestofs duo_selected 1) 0"
proof -
  define s1 where "s1 = set_problem_size (fst (register duo 0 duo_selected)) 0
                          (snd (register duo 0 duo_selected))"
  have h1: "\<not> use_first_alternative duo_selected"
    unfolding duo_selected_def by code_simp
  have h2: "pop_stage exact duo [] = Inr (0, [])"
    by (simp add: pop_stage_def duo_def)
  have h3: "(0::int) \<le> 0" and h4: "0 < stages duo" and h5: "0 = get_problem_size duo [] ()"
    by (simp_all add: duo_def)
  have cached: "best_method (bestofs duo_selected 1) 0 = Some (Method 0)"
    unfolding duo_selected_def by code_simp
  then have h6: "stages duo = 1 \<and> best_method (bestofs duo_selected (self_id duo)) 0 = Some (Method 0)
      \<or> stages duo \<noteq> 1 \<and> best_pipeline (bestofs duo_selected (self_id duo)) 0 = Some (Pipeline [])
         \<and> int (length ([] :: nat list)) = stages duo \<and> 0 = [] ! nat 0"
    by (simp add: duo_def)
  have sid: "self_id duo = 1" by (simp add: duo_def)
  from cached_call_bypasses_tuning
         [where invoke = "timed_invoke (\<lambda>_. 1)" and eid = 0 and ?s1.0 = s1, OF h1 h2 h3 h4 h5 h6] cached h1
  show ?thesis
    by (simp add: s1_def sid timed_invoke_def)
qed

text \<open>
  C5 as stated fails: the tuning state of a problem size changes after a selection was
  cached for it. The second call of \<open>recur\<close> starts with nothing cached and evaluates B,
  which calls \<open>recur\<close> again. The nested call samples B, ends the only round and caches B.
  When the outer call returns it appends its own sample to the series of B and moves the
  round counter from 1 to 2.
\<close>

theorem cached_state_changes_again:
  "snd (call_pre exact recur 0 [1] () recur_first) = Evaluate 2 0 0 1 (Method 1) [1]
   \<and> best_method (bestofs recur_cached 1) 0 = Some (Method 1)
   \<and> times_of (bestofs recur_cached 1) 0 = [[2], [1]]
   \<and> current_round (bestofs recur_cached 1) 0 = 1
   \<and> times_of (bestofs recur_final 1) 0 = [[2], [1, 99]]
   \<and> current_round (bestofs recur_final 1) 0 = 2"
  unfolding recur_cached_def recur_final_def recur_first_def by code_simp

text \<open>
  C10. The stored selection is consistent with the registry: if, for every problem size, a
  selection other than \<open>-1\<close> is a position of the list of alternatives and the cached name
  and callable are the ones registered there, then the same holds after a call, whatever the
  alternatives do as long as they keep this property themselves (as nested calls do, by this
  very theorem).
\<close>

theorem cached_selection_consistent:
  assumes inv: "selection_invariant self s"
      and alt: "\<forall>f a k w. selection_invariant self w \<longrightarrow> selection_invariant self (fst (invoke f a k w))"
  shows "selection_invariant self (fst (bestof_call rt invoke self eid args kwargs s))"
proof -
  obtain s1 d where pre: "call_pre rt self eid args kwargs s = (s1, d)"
    by (cases "call_pre rt self eid args kwargs s") auto
  have inv1: "selection_invariant self s1"
    using call_pre_invariant [where self = self and rt = rt and eid = eid and args = args and kwargs = kwargs and s = s] pre inv by simp
  have callee: "selection_invariant self (fst (call_callee invoke c a kwargs s1))" for c a
    using inv1 alt by (cases c) (auto simp: call_callee_def)
  show ?thesis
  proof (cases d)
    case (Raise e)
    with pre inv1 show ?thesis by (simp add: bestof_call_def)
  next
    case (Direct c a)
    with pre callee show ?thesis by (simp add: bestof_call_def)
  next
    case (Evaluate n ps stage cur c a)
    obtain s2 r where run: "call_callee invoke c a kwargs s1 = (s2, r)"
      by (cases "call_callee invoke c a kwargs s1") auto
    with callee [of c a] have inv2: "selection_invariant self s2" by simp
    show ?thesis
    proof (cases r)
      case (Inl e)
      with pre Evaluate run inv2 show ?thesis by (simp add: bestof_call_def)
    next
      case (Inr out)
      obtain s3 r3 where post: "call_post rt self n ps stage cur (float_sub rt (clock s2) (clock s1)) out s2 = (s3, r3)"
        by (cases "call_post rt self n ps stage cur (float_sub rt (clock s2) (clock s1)) out s2") auto
      from call_post_consistent [OF inv2 post] pre Evaluate run Inr post show ?thesis
        by (simp add: bestof_call_def)
    qed
  qed
qed

theorem cached_selection_consistent_witness:
  "selection_invariant solo solo_world
   \<and> selection_invariant solo (fst (bestof_call exact (timed_invoke (\<lambda>_. 1)) solo 0 [] () solo_world))
   \<and> best_idx (bestofs (fst (bestof_call exact (timed_invoke (\<lambda>_. 1)) solo 0 [] () solo_world)) 1) 0 = 0"
proof -
  have h1: "selection_invariant solo solo_world"
    by (simp add: selection_invariant_def selection_consistent_def solo_world_def solo_def
          BestOf_init_def alternative_ok_def world_init_def BestOfExecution_init_def Let_def
          BestOf_state_init_def times_arrays_def total_alternatives_def)
  have h2: "\<forall>f a k w. selection_invariant solo w
              \<longrightarrow> selection_invariant solo (fst (timed_invoke (\<lambda>_. 1) f (a :: int list) (k :: unit) (w :: (nat, nat, nat) world)))"
    by (simp add: selection_invariant_def timed_invoke_def)
  have h3: "best_idx (bestofs (fst (bestof_call exact (timed_invoke (\<lambda>_. 1)) solo 0 [] () solo_world)) 1) 0 = 0"
    by code_simp
  from cached_selection_consistent [where rt = exact and eid = 0 and args = "[]" and kwargs = "()", OF h1 h2] h1 h3 show ?thesis
    by simp
qed

text \<open>
  C7, as the code has it. A call that evaluates an alternative marks its node, before the
  alternative runs, as blocking its parent for the parent's current problem size (unless the
  parent is the root). After the alternative has returned the call changes the tree exactly
  when it caches a selection, that is when the alternative raised nothing, no child blocks
  the node, the sample is recorded and the decision selects: then the tree is the one
  \<open>unblock_parent\<close> gives, in which the parent no longer holds the mark, and the cache of the
  problem size is set. In every other case the tree is left as the alternative left it, so
  the mark stays, and so are the cached selections.
\<close>

theorem block_kept_until_selection:
  assumes pre: "call_pre rt self eid args kwargs s = (s1, Evaluate n ps stage cur alt args1)"
      and run: "call_callee invoke alt args1 kwargs s1 = (s2, res)"
      and fin: "bestof_call rt invoke self eid args kwargs s = (s3, r)"
      and sel: "selected = (\<not> isl res
                  \<and> selects rt self n ps stage cur (float_sub rt (clock s2) (clock s1)) s2)"
  shows "(\<forall>p. parent (heap s1 n) = Some p \<and> \<not> is_root s1 p \<longrightarrow>
            (n, True) \<in> set (blocked_by (heap s1 p) (current_problem_size (heap s1 p))))
       \<and> heap s3 = (if selected then heap (unblock_parent n s2) else heap s2)
       \<and> (\<forall>p. parent (heap s2 n) = Some p \<and> \<not> is_root s2 p \<longrightarrow>
            n \<notin> fst ` set (blocked_by (heap (unblock_parent n s2) p) (current_problem_size (heap s2 p))))
       \<and> (selected \<longrightarrow>
            (if stages self = 1 then best_method (bestofs s3 (self_id self)) ps
             else best_pipeline (bestofs s3 (self_id self)) ps) \<noteq> None)
       \<and> (\<not> selected \<longrightarrow>
            best_method (bestofs s3 (self_id self)) = best_method (bestofs s2 (self_id self))
            \<and> best_pipeline (bestofs s3 (self_id self)) = best_pipeline (bestofs s2 (self_id self)))"
proof -
  define s0 where "s0 = set_problem_size n ps (snd (register self eid s))"
  from call_pre_EvaluateD [OF pre]
  have s1: "s1 = (block_parent n s0)\<lparr>current_parents := current_parents s @ [n],
                   stdout := stdout s @ [(stage, cur, ps)]\<rparr>"
    by (simp add: s0_def)
  have marks: "(n, True) \<in> set (blocked_by (heap s1 p) (current_problem_size (heap s1 p)))"
    if "parent (heap s1 n) = Some p" and "\<not> is_root s1 p" for p
  proof -
    from that have "parent (heap s0 n) = Some p" and "\<not> is_root s0 p"
      by (simp_all add: s1 block_parent_parent is_root_def)
    from block_parent_marks [OF this] show ?thesis
      by (simp add: s1)
  qed
  have rest: "heap s3 = (if selected then heap (unblock_parent n s2) else heap s2)
       \<and> (selected \<longrightarrow>
            (if stages self = 1 then best_method (bestofs s3 (self_id self)) ps
             else best_pipeline (bestofs s3 (self_id self)) ps) \<noteq> None)
       \<and> (\<not> selected \<longrightarrow>
            best_method (bestofs s3 (self_id self)) = best_method (bestofs s2 (self_id self))
            \<and> best_pipeline (bestofs s3 (self_id self)) = best_pipeline (bestofs s2 (self_id self)))"
  proof (cases res)
    case (Inl e)
    with pre run fin have "s3 = s2"
      by (simp add: bestof_call_def)
    moreover from Inl sel have "\<not> selected"
      by simp
    ultimately show ?thesis
      by simp
  next
    case (Inr out)
    with pre run fin
    have post: "call_post rt self n ps stage cur (float_sub rt (clock s2) (clock s1)) out s2 = (s3, r)"
      by (simp add: bestof_call_def)
    from Inr sel
    have "selected = selects rt self n ps stage cur (float_sub rt (clock s2) (clock s1)) s2"
      by simp
    with call_post_tree [OF post] show ?thesis
      by simp
  qed
  from marks rest unblock_parent_clears show ?thesis
    by blast
qed

theorem block_kept_until_selection_witness:
  "parent (heap inner_started 4) = Some 3
   \<and> \<not> is_root inner_started 3
   \<and> (4, True) \<in> set (blocked_by (heap inner_started 3) (current_problem_size (heap inner_started 3)))
   \<and> \<not> selects exact inner 4 0 0 0 1 (fst (timed_invoke (\<lambda>_. 1) 0 ([] :: int list) () inner_started))
   \<and> heap inner_returned = heap inner_started"
proof -
  define s2 where "s2 = fst (call_callee (timed_invoke (\<lambda>_. 1)) (Method 0) ([] :: int list) () inner_started)"
  have "snd (call_pre exact inner 1 [] () outer_running) = Evaluate 4 0 0 0 (Method 0) []"
    unfolding outer_running_def by code_simp
  then have pre: "call_pre exact inner 1 [] () outer_running = (inner_started, Evaluate 4 0 0 0 (Method 0) [])"
    by (simp add: inner_started_def prod_eq_iff)
  have run: "call_callee (timed_invoke (\<lambda>_. 1)) (Method 0) [] () inner_started = (s2, Inr 0)"
    by (simp add: s2_def call_callee_def timed_invoke_def)
  have fin: "bestof_call exact (timed_invoke (\<lambda>_. 1)) inner 1 [] () outer_running
               = (inner_returned, snd (bestof_call exact (timed_invoke (\<lambda>_. 1)) inner 1 [] () outer_running))"
    by (simp add: inner_returned_def)
  have par: "parent (heap inner_started 4) = Some 3" and nroot: "\<not> is_root inner_started 3"
    unfolding inner_started_def outer_running_def by code_simp+
  have s2h: "heap s2 = heap inner_started" and s2c: "clock s2 = clock inner_started + 1"
    and s2e: "s2 = fst (timed_invoke (\<lambda>_. 1) 0 ([] :: int list) () inner_started)"
    by (simp_all add: s2_def call_callee_def timed_invoke_def)
  have nosel: "\<not> selects exact inner 4 0 0 0 1 (fst (timed_invoke (\<lambda>_. 1) 0 ([] :: int list) () inner_started))"
    unfolding inner_started_def outer_running_def by code_simp
  have el: "float_sub exact (clock s2) (clock inner_started) = 1"
    by (simp add: s2c exact_def)
  from block_kept_until_selection [OF pre run fin refl] par nroot nosel
  show ?thesis
    by (simp add: el s2h s2e [symmetric])
qed

text \<open>
  C7 as stated fails: \<open>inner\<close>, called while \<open>outer\<close> evaluates an alternative, returns its
  result after one sample, and the node of \<open>outer\<close> (3) is still blocked by the node of
  \<open>inner\<close> (4) for its current problem size.
\<close>

theorem block_survives_return:
  "snd (bestof_call exact (timed_invoke (\<lambda>_. 1)) inner 1 [] () outer_running) = Inr 0
   \<and> parent (heap (fst (bestof_call exact (timed_invoke (\<lambda>_. 1)) inner 1 [] () outer_running)) 4) = Some 3
   \<and> current_problem_size (heap (fst (bestof_call exact (timed_invoke (\<lambda>_. 1)) inner 1 [] () outer_running)) 3)
       = Some 0
   \<and> blocked_by (heap (fst (bestof_call exact (timed_invoke (\<lambda>_. 1)) inner 1 [] () outer_running)) 3) (Some 0)
       = [(4, True)]"
  unfolding outer_running_def by code_simp

text \<open>
  C8, as the code has it. In pipeline mode a call whose stage is not below \<open>stages\<close>
  raises the assertion error. Its node was registered before the check: the world it leaves
  is the world after \<open>_register\<close>, which changes no sample, buffer, cursor, round counter or
  selection of any instance, no problem size or block of any existing node, and nothing at
  all when the call stack is already registered.
\<close>

theorem stage_too_large_raises:
  assumes "stages self > 1"
      and "args = a # rest"
      and "py_int rt a = Inr i"
      and "stages self \<le> i"
      and "s1 = snd (register self eid s)"
  shows "bestof_call rt invoke self eid args kwargs s = (s1, Inl AssertionError)
       \<and> best_idx (bestofs s1 (self_id self)) = best_idx (bestofs s (self_id self))
       \<and> best_name (bestofs s1 (self_id self)) = best_name (bestofs s (self_id self))
       \<and> best_method (bestofs s1 (self_id self)) = best_method (bestofs s (self_id self))
       \<and> best_pipeline (bestofs s1 (self_id self)) = best_pipeline (bestofs s (self_id self))
       \<and> current_round (bestofs s1 (self_id self)) = current_round (bestofs s (self_id self))
       \<and> current_alternative (bestofs s1 (self_id self)) = current_alternative (bestofs s (self_id self))
       \<and> times_of (bestofs s1 (self_id self)) = times_of (bestofs s (self_id self))
       \<and> stages_times (bestofs s1 (self_id self)) = stages_times (bestofs s (self_id self))
       \<and> (\<forall>j. j \<noteq> self_id self \<longrightarrow> bestofs s1 j = bestofs s j)
       \<and> use_first_alternative s1 = use_first_alternative s
       \<and> current_parents s1 = current_parents s \<and> clock s1 = clock s \<and> stdout s1 = stdout s
       \<and> (\<forall>m. m \<noteq> next_ref s \<longrightarrow>
             blocked_by (heap s1 m) = blocked_by (heap s m)
             \<and> current_problem_size (heap s1 m) = current_problem_size (heap s m)
             \<and> problem_sizes (heap s1 m) = problem_sizes (heap s m))
       \<and> (executions (bestofs s (self_id self)) eid \<noteq> None \<longrightarrow> s1 = s)"
proof -
  have "pop_stage rt self args = Inr (i, rest)"
    using assms(1,2,3) by (simp add: pop_stage_def)
  then have "call_pre rt self eid args kwargs s = (s1, Raise AssertionError)"
    using assms(4,5) by (simp add: call_pre_bad_stage)
  then have "bestof_call rt invoke self eid args kwargs s = (s1, Inl AssertionError)"
    by (simp add: bestof_call_def)
  with register_frame [OF assms(5)] show ?thesis
    by blast
qed

theorem stage_too_large_raises_witness:
  "1 < stages pipe \<and> stages pipe \<le> 2
   \<and> bestof_call exact (timed_invoke (\<lambda>_. 1)) pipe 0 [2] () pipe_world
       = (snd (register pipe 0 pipe_world), Inl AssertionError)
   \<and> stages_times (bestofs (snd (register pipe 0 pipe_world)) 1) = stages_times (bestofs pipe_world 1)"
proof -
  have h1: "stages pipe > 1" and h3: "stages pipe \<le> 2"
    by (simp_all add: pipe_def)
  have sid: "self_id pipe = 1" by (simp add: pipe_def)
  have h2: "py_int exact 2 = Inr 2"
    by (simp add: exact_def)
  from stage_too_large_raises
         [where invoke = "timed_invoke (\<lambda>_. 1)" and eid = 0 and kwargs = "()" and s = pipe_world
            and rest = "[]", OF h1 refl h2 h3 refl] h1 h3
  show ?thesis
    by (simp add: sid)
qed

text \<open>
  C8 as stated fails: a call with stage 2 of a pipeline of two stages raises, and the
  execution tree has a new node under the root.
\<close>

theorem stage_error_registers_node:
  "snd (bestof_call exact (timed_invoke (\<lambda>_. 1)) pipe 0 [2] () pipe_world) = Inl AssertionError
   \<and> children (heap pipe_world root) = []
   \<and> children (heap (fst (bestof_call exact (timed_invoke (\<lambda>_. 1)) pipe 0 [2] () pipe_world)) root) = [2]
   \<and> executions (bestofs pipe_world 1) 0 = None
   \<and> executions (bestofs (fst (bestof_call exact (timed_invoke (\<lambda>_. 1)) pipe 0 [2] () pipe_world)) 1) 0 = Some 2"
  by code_simp

text \<open>A stage of \<open>-1\<close> is not rejected: it runs the last stage of the first alternative.\<close>

lemma negative_stage_accepted:
  "snd (bestof_call exact (timed_invoke (\<lambda>_. 1)) pipe 0 [- 1] () pipe_world) = Inr 1"
  by code_simp

text \<open>
  C9, as the code has it. With the global switch set, a call with \<open>0 \<le> stage < stages\<close> on
  an instance whose list of alternatives has a first element accepted by the constructor
  runs the first alternative (its function of that stage, for a pipeline) and returns what it
  returns. The classifier is not called and nothing is measured, blocked or cached; the node
  of the call is registered first, as in every call, which is the only change (none when the
  call stack is already registered).
\<close>

theorem override_calls_first_alternative:
  assumes "use_first_alternative s"
      and "pop_stage rt self args = Inr (stage, args1)"
      and "0 \<le> stage" and "stage < stages self"
      and "alternatives self = a # others"
      and "alternative_ok (stages self) a"
      and "f = (case snd a of Method g \<Rightarrow> g | Pipeline ms \<Rightarrow> ms ! nat stage)"
      and "s1 = snd (register self eid s)"
  shows "bestof_call rt invoke self eid args kwargs s = invoke f args1 kwargs s1
       \<and> best_idx (bestofs s1 (self_id self)) = best_idx (bestofs s (self_id self))
       \<and> best_name (bestofs s1 (self_id self)) = best_name (bestofs s (self_id self))
       \<and> best_method (bestofs s1 (self_id self)) = best_method (bestofs s (self_id self))
       \<and> best_pipeline (bestofs s1 (self_id self)) = best_pipeline (bestofs s (self_id self))
       \<and> current_round (bestofs s1 (self_id self)) = current_round (bestofs s (self_id self))
       \<and> current_alternative (bestofs s1 (self_id self)) = current_alternative (bestofs s (self_id self))
       \<and> times_of (bestofs s1 (self_id self)) = times_of (bestofs s (self_id self))
       \<and> stages_times (bestofs s1 (self_id self)) = stages_times (bestofs s (self_id self))
       \<and> (\<forall>j. j \<noteq> self_id self \<longrightarrow> bestofs s1 j = bestofs s j)
       \<and> use_first_alternative s1 = use_first_alternative s
       \<and> current_parents s1 = current_parents s \<and> clock s1 = clock s \<and> stdout s1 = stdout s
       \<and> (\<forall>m. m \<noteq> next_ref s \<longrightarrow>
             blocked_by (heap s1 m) = blocked_by (heap s m)
             \<and> current_problem_size (heap s1 m) = current_problem_size (heap s m)
             \<and> problem_sizes (heap s1 m) = problem_sizes (heap s m))
       \<and> (executions (bestofs s (self_id self)) eid \<noteq> None \<longrightarrow> s1 = s)"
proof -
  have first: "py_getitem (alternatives self) (int 0) = Inr a"
    using assms(5) by (simp add: py_getitem_def py_position_def)
  have "alternative_at self 0 stage = Inr (Method f)"
  proof (cases "snd a")
    case (Method g)
    with assms(6,7) first show ?thesis
      by (simp add: alternative_at_def alternative_ok_def)
  next
    case (Pipeline ms)
    with assms(3,4,6,7) first show ?thesis
      by (simp add: alternative_at_def alternative_ok_def subscript_def py_getitem_def py_position_def)
  qed
  then have "call_pre rt self eid args kwargs s = (s1, Direct (Method f) args1)"
    using assms by (simp add: call_pre_override)
  then have "bestof_call rt invoke self eid args kwargs s = invoke f args1 kwargs s1"
    by (simp add: bestof_call_def call_callee_def)
  with register_frame [OF assms(8)] show ?thesis
    by blast
qed

theorem override_calls_first_alternative_witness:
  "use_first_alternative (use_always_the_first_alternative pipe_world)
   \<and> alternative_ok (stages pipe) (''p'', Pipeline [0, 1])
   \<and> bestof_call exact (timed_invoke (\<lambda>_. 1)) pipe 0 [1] () (use_always_the_first_alternative pipe_world)
       = timed_invoke (\<lambda>_. 1) 1 ([] :: int list) ()
           (snd (register pipe 0 (use_always_the_first_alternative pipe_world)))
   \<and> stages_times (bestofs (snd (register pipe 0 (use_always_the_first_alternative pipe_world))) 1)
       = stages_times (bestofs (use_always_the_first_alternative pipe_world) 1)"
proof -
  have h1: "use_first_alternative (use_always_the_first_alternative pipe_world)"
    by (simp add: use_always_the_first_alternative_def)
  have h2: "pop_stage exact pipe [1] = Inr (1, [])"
    by (simp add: pop_stage_def pipe_def exact_def)
  have h3: "(0 :: int) \<le> 1" and h4: "1 < stages pipe"
    by (simp_all add: pipe_def)
  have h5: "alternatives pipe = (''p'', Pipeline [0, 1]) # [(''q'', Pipeline [2, 3])]"
    by (simp add: pipe_def)
  have h6: "alternative_ok (stages pipe) (''p'', Pipeline [0, 1])"
    by (simp add: alternative_ok_def pipe_def)
  have h7: "(1 :: nat) = (case snd (''p'', Pipeline [0, 1 :: nat]) of Method g \<Rightarrow> g | Pipeline ms \<Rightarrow> ms ! nat 1)"
    by simp
  have sid: "self_id pipe = 1" by (simp add: pipe_def)
  from override_calls_first_alternative
         [where invoke = "timed_invoke (\<lambda>_. 1)" and eid = 0 and kwargs = "()", OF h1 h2 h3 h4 h5 h6 h7 refl] h1 h6
  show ?thesis
    by (simp add: sid)
qed

text \<open>
  C9 as stated fails: with the switch set, the first call from a call stack adds a node to
  the execution tree.
\<close>

theorem override_registers_node:
  "use_first_alternative (use_always_the_first_alternative solo_world)
   \<and> snd (bestof_call exact (timed_invoke (\<lambda>_. 1)) solo 0 [] () (use_always_the_first_alternative solo_world)) = Inr 0
   \<and> children (heap (use_always_the_first_alternative solo_world) root) = []
   \<and> children (heap (fst (bestof_call exact (timed_invoke (\<lambda>_. 1)) solo 0 [] ()
                 (use_always_the_first_alternative solo_world))) root) = [2]"
  by code_simp

text \<open>
  C3, as the code has it. In a call that records (stack popped, node not blocked), let
  \<open>st1\<close>, \<open>alt\<close> and \<open>rnd\<close> be the state, the cursor and the round counter once the sample is
  recorded. Medians and the product of the least median with the pruning speedup are the
  ones the runtime computes. The decision is evaluated exactly when \<open>alt = 0\<close> and \<open>rnd\<close>
  has reached \<open>min(prune_after_round, rounds)\<close>. When it is not, nothing is selected, the
  cursor and the round are stored as they are and the tree is untouched. When it is, every
  alternative has samples, and \<open>rnd = rounds\<close> or exactly one alternative is live, the
  alternative with the least median is selected, the first one among equals, and cached
  with its name and callable; the parent is unblocked. When it is and neither holds, nothing
  is selected and the cursor moves to the first live alternative.
\<close>

theorem selection_decision:
  assumes stack: "current_parents s \<noteq> []" and free: "\<not> is_blocked s n"
      and rec: "record_time rt self ps stage cur t (bestofs s (self_id self)) = (st1, Inr (alt, rnd))"
      and post: "call_post rt self n ps stage cur t out s = (s3, r)"
      and st3: "st3 = bestofs s3 (self_id self)"
      and K: "K = length (alternatives self)"
  shows "(\<not> (alt = 0 \<and> min (prune_after_round self) (total_rounds self) \<le> rnd) \<longrightarrow>
            best_idx st3 = best_idx st1 \<and> best_name st3 = best_name st1
            \<and> best_method st3 = best_method st1 \<and> best_pipeline st3 = best_pipeline st1
            \<and> current_alternative st3 ps = alt \<and> current_round st3 ps = rnd
            \<and> heap s3 = heap s)
       \<and> (alt = 0 \<and> min (prune_after_round self) (total_rounds self) \<le> rnd
            \<and> length (times_of st1 ps) = K \<and> 0 < K \<and> (\<forall>x\<in>set (times_of st1 ps). x \<noteq> [])
            \<and> (rnd = total_rounds self \<or> card {j. j < K \<and> live rt self st1 ps j} = 1) \<longrightarrow>
            (\<exists>i<K. best_idx st3 ps = int i
                \<and> (\<forall>j<K. median_at rt st1 ps i \<le> median_at rt st1 ps j)
                \<and> (\<forall>j<i. median_at rt st1 ps i < median_at rt st1 ps j)
                \<and> best_name st3 ps = fst (alternatives self ! i)
                \<and> (if stages self = 1 then best_method st3 ps else best_pipeline st3 ps)
                    = Some (snd (alternatives self ! i))
                \<and> current_alternative st3 ps = 0 \<and> current_round st3 ps = rnd
                \<and> heap s3 = heap (unblock_parent n s)))
       \<and> (alt = 0 \<and> min (prune_after_round self) (total_rounds self) \<le> rnd
            \<and> length (times_of st1 ps) = K \<and> 0 < K \<and> (\<forall>x\<in>set (times_of st1 ps). x \<noteq> [])
            \<and> \<not> (rnd = total_rounds self \<or> card {j. j < K \<and> live rt self st1 ps j} = 1) \<longrightarrow>
            best_idx st3 = best_idx st1 \<and> best_name st3 = best_name st1
            \<and> best_method st3 = best_method st1 \<and> best_pipeline st3 = best_pipeline st1
            \<and> current_alternative st3 ps
                = first_below (map (median rt) (times_of st1 ps))
                    (Some (float_mul rt (min_median rt st1 ps) (pruning_speedup self))) 0
            \<and> current_round st3 ps = rnd \<and> heap s3 = heap s)"
proof -
  have p1: "(\<not> (alt = 0 \<and> min (prune_after_round self) (total_rounds self) \<le> rnd) \<longrightarrow>
            best_idx st3 = best_idx st1 \<and> best_name st3 = best_name st1
            \<and> best_method st3 = best_method st1 \<and> best_pipeline st3 = best_pipeline st1
            \<and> current_alternative st3 ps = alt \<and> current_round st3 ps = rnd
            \<and> heap s3 = heap s)"
  proof

  assume no: "\<not> (alt = 0 \<and> min (prune_after_round self) (total_rounds self) \<le> rnd)"
  then have sel: "select_best rt self ps alt rnd st1 = (st1, Inr (alt, False))"
    by (rule select_best_not_evaluated)
  note facts = call_post_recorded [OF stack free rec sel post]
  from facts(2,3) show "best_idx st3 = best_idx st1 \<and> best_name st3 = best_name st1
            \<and> best_method st3 = best_method st1 \<and> best_pipeline st3 = best_pipeline st1
            \<and> current_alternative st3 ps = alt \<and> current_round st3 ps = rnd
            \<and> heap s3 = heap s"
    by (simp add: st3)
  qed
  have p2: "(alt = 0 \<and> min (prune_after_round self) (total_rounds self) \<le> rnd
            \<and> length (times_of st1 ps) = K \<and> 0 < K \<and> (\<forall>x\<in>set (times_of st1 ps). x \<noteq> [])
            \<and> (rnd = total_rounds self \<or> card {j. j < K \<and> live rt self st1 ps j} = 1) \<longrightarrow>
            (\<exists>i<K. best_idx st3 ps = int i
                \<and> (\<forall>j<K. median_at rt st1 ps i \<le> median_at rt st1 ps j)
                \<and> (\<forall>j<i. median_at rt st1 ps i < median_at rt st1 ps j)
                \<and> best_name st3 ps = fst (alternatives self ! i)
                \<and> (if stages self = 1 then best_method st3 ps else best_pipeline st3 ps)
                    = Some (snd (alternatives self ! i))
                \<and> current_alternative st3 ps = 0 \<and> current_round st3 ps = rnd
                \<and> heap s3 = heap (unblock_parent n s)))"
  proof
  assume a: "alt = 0 \<and> min (prune_after_round self) (total_rounds self) \<le> rnd
            \<and> length (times_of st1 ps) = K \<and> 0 < K \<and> (\<forall>x\<in>set (times_of st1 ps). x \<noteq> [])
            \<and> (rnd = total_rounds self \<or> card {j. j < K \<and> live rt self st1 ps j} = 1)"
  then have alt: "alt = 0" and dec: "min (prune_after_round self) (total_rounds self) \<le> rnd"
    and len: "length (times_of st1 ps) = length (alternatives self)" and ne: "alternatives self \<noteq> []"
    and sampled: "\<forall>x\<in>set (times_of st1 ps). x \<noteq> []"
    and crit: "rnd = total_rounds self \<or> card {j. j < length (alternatives self) \<and> live rt self st1 ps j} = 1"
    using K by auto
  from select_best_evaluated [where rt = rt, OF dec len ne sampled]
  obtain i where i: "i < length (alternatives self)"
    and imin: "median_at rt st1 ps i = min_median rt st1 ps"
    and ifirst: "\<forall>j<i. median_at rt st1 ps j \<noteq> min_median rt st1 ps"
    and sel0: "select_best rt self ps 0 rnd st1 =
               (if rnd = total_rounds self
                     \<or> card {j. j < length (alternatives self) \<and> live rt self st1 ps j} = 1 then
                  ((if stages self = 1 then
                      st1\<lparr>best_idx := (best_idx st1)(ps := int i),
                         best_name := (best_name st1)(ps := fst (alternatives self ! i)),
                         best_method := (best_method st1)(ps := Some (snd (alternatives self ! i)))\<rparr>
                    else
                      st1\<lparr>best_idx := (best_idx st1)(ps := int i),
                         best_name := (best_name st1)(ps := fst (alternatives self ! i)),
                         best_pipeline := (best_pipeline st1)(ps := Some (snd (alternatives self ! i)))\<rparr>),
                   Inr (0, True))
                else
                  (st1, Inr (first_below (map (median rt) (times_of st1 ps))
                              (Some (float_mul rt (min_median rt st1 ps) (pruning_speedup self))) 0, False)))"
    by blast
  define st2 where "st2 = (if stages self = 1 then
                      st1\<lparr>best_idx := (best_idx st1)(ps := int i),
                         best_name := (best_name st1)(ps := fst (alternatives self ! i)),
                         best_method := (best_method st1)(ps := Some (snd (alternatives self ! i)))\<rparr>
                    else
                      st1\<lparr>best_idx := (best_idx st1)(ps := int i),
                         best_name := (best_name st1)(ps := fst (alternatives self ! i)),
                         best_pipeline := (best_pipeline st1)(ps := Some (snd (alternatives self ! i)))\<rparr>)"
  from sel0 crit alt have sel: "select_best rt self ps alt rnd st1 = (st2, Inr (0, True))"
    by (simp only: st2_def if_True)
  note facts = call_post_recorded [OF stack free rec sel post]
  have le: "median_at rt st1 ps i \<le> median_at rt st1 ps j" if "j < K" for j
    using min_median_le [where j = j and st = st1 and ps = ps and rt = rt] that len K imin by simp
  have lt: "median_at rt st1 ps i < median_at rt st1 ps j" if "j < i" for j
  proof -
    from that i K have "j < K" by simp
    from le [OF this] ifirst that imin show ?thesis by auto
  qed
  have fields: "best_idx st3 ps = int i \<and> best_name st3 ps = fst (alternatives self ! i)
      \<and> (if stages self = 1 then best_method st3 ps else best_pipeline st3 ps)
          = Some (snd (alternatives self ! i))
      \<and> current_alternative st3 ps = 0 \<and> current_round st3 ps = rnd"
    using facts(2) by (simp add: st3 st2_def)
  from facts(3) have "heap s3 = heap (unblock_parent n s)" by simp
  with fields le lt i K
  show "\<exists>i<K. best_idx st3 ps = int i
                \<and> (\<forall>j<K. median_at rt st1 ps i \<le> median_at rt st1 ps j)
                \<and> (\<forall>j<i. median_at rt st1 ps i < median_at rt st1 ps j)
                \<and> best_name st3 ps = fst (alternatives self ! i)
                \<and> (if stages self = 1 then best_method st3 ps else best_pipeline st3 ps)
                    = Some (snd (alternatives self ! i))
                \<and> current_alternative st3 ps = 0 \<and> current_round st3 ps = rnd
                \<and> heap s3 = heap (unblock_parent n s)"
    by (intro exI [of _ i]) simp
  qed
  have p3: "(alt = 0 \<and> min (prune_after_round self) (total_rounds self) \<le> rnd
            \<and> length (times_of st1 ps) = K \<and> 0 < K \<and> (\<forall>x\<in>set (times_of st1 ps). x \<noteq> [])
            \<and> \<not> (rnd = total_rounds self \<or> card {j. j < K \<and> live rt self st1 ps j} = 1) \<longrightarrow>
            best_idx st3 = best_idx st1 \<and> best_name st3 = best_name st1
            \<and> best_method st3 = best_method st1 \<and> best_pipeline st3 = best_pipeline st1
            \<and> current_alternative st3 ps
                = first_below (map (median rt) (times_of st1 ps))
                    (Some (float_mul rt (min_median rt st1 ps) (pruning_speedup self))) 0
            \<and> current_round st3 ps = rnd \<and> heap s3 = heap s)"
  proof
  assume a: "alt = 0 \<and> min (prune_after_round self) (total_rounds self) \<le> rnd
            \<and> length (times_of st1 ps) = K \<and> 0 < K \<and> (\<forall>x\<in>set (times_of st1 ps). x \<noteq> [])
            \<and> \<not> (rnd = total_rounds self \<or> card {j. j < K \<and> live rt self st1 ps j} = 1)"
  then have alt: "alt = 0" and dec: "min (prune_after_round self) (total_rounds self) \<le> rnd"
    and len: "length (times_of st1 ps) = length (alternatives self)" and ne: "alternatives self \<noteq> []"
    and sampled: "\<forall>x\<in>set (times_of st1 ps). x \<noteq> []"
    and crit: "\<not> (rnd = total_rounds self \<or> card {j. j < length (alternatives self) \<and> live rt self st1 ps j} = 1)"
    using K by auto
  from select_best_evaluated [where rt = rt, OF dec len ne sampled] crit alt
  have sel: "select_best rt self ps alt rnd st1 =
                  (st1, Inr (first_below (map (median rt) (times_of st1 ps))
                              (Some (float_mul rt (min_median rt st1 ps) (pruning_speedup self))) 0, False))"
    by (auto simp only: if_False)
  note facts = call_post_recorded [OF stack free rec sel post]
  from facts(2,3) show "best_idx st3 = best_idx st1 \<and> best_name st3 = best_name st1
            \<and> best_method st3 = best_method st1 \<and> best_pipeline st3 = best_pipeline st1
            \<and> current_alternative st3 ps
                = first_below (map (median rt) (times_of st1 ps))
                    (Some (float_mul rt (min_median rt st1 ps) (pruning_speedup self))) 0
            \<and> current_round st3 ps = rnd \<and> heap s3 = heap s"
    by (simp add: st3)

  qed
  from p1 p2 p3 show ?thesis
    by (intro conjI)
qed

theorem selection_decision_witness:
  "current_parents duo_deciding \<noteq> [] \<and> \<not> is_blocked duo_deciding 2
   \<and> snd (record_time exact duo 0 0 1 1 (bestofs duo_deciding 1)) = Inr (0, 1)
   \<and> times_of (fst (record_time exact duo 0 0 1 1 (bestofs duo_deciding 1))) 0 = [[1], [1]]
   \<and> best_idx (bestofs (fst (call_post exact duo 2 0 0 1 1 (1 :: nat) duo_deciding)) 1) 0 = 0
   \<and> best_name (bestofs (fst (call_post exact duo 2 0 0 1 1 (1 :: nat) duo_deciding)) 1) 0 = ''A''
   \<and> best_method (bestofs (fst (call_post exact duo 2 0 0 1 1 (1 :: nat) duo_deciding)) 1) 0 = Some (Method 0)"
proof -
  define st1 where "st1 = fst (record_time exact duo 0 0 1 1 (bestofs duo_deciding 1))"
  define s3 where "s3 = fst (call_post exact duo 2 0 0 1 1 (1 :: nat) duo_deciding)"
  have sid: "self_id duo = 1" and alts: "alternatives duo = [(''A'', Method 0), (''B'', Method 1)]"
    and one: "stages duo = 1" and rounds: "total_rounds duo = 1" and prune: "prune_after_round duo = 4"
    by (simp_all add: duo_def)
  have stack: "current_parents duo_deciding \<noteq> []" and free: "\<not> is_blocked duo_deciding 2"
    unfolding duo_deciding_def by code_simp+
  have r: "snd (record_time exact duo 0 0 1 1 (bestofs duo_deciding 1)) = Inr (0, 1)"
    unfolding duo_deciding_def by code_simp
  then have rec: "record_time exact duo 0 0 1 1 (bestofs duo_deciding (self_id duo)) = (st1, Inr (0, 1))"
    by (simp add: st1_def sid prod_eq_iff)
  have post: "call_post exact duo 2 0 0 1 1 (1 :: nat) duo_deciding
                = (s3, snd (call_post exact duo 2 0 0 1 1 (1 :: nat) duo_deciding))"
    by (simp add: s3_def)
  have times: "times_of st1 0 = [[1], [1]]"
    unfolding st1_def duo_deciding_def by code_simp
  have med: "median_at exact st1 0 0 = 1" "median_at exact st1 0 1 = 1"
    by (simp_all add: median_at_def times median_def)
  have K2: "2 = length (alternatives duo)"
    by (simp add: alts)
  from selection_decision [OF stack free rec post refl K2]
  have "\<exists>i<2. best_idx (bestofs s3 1) 0 = int i
                \<and> (\<forall>j<2. median_at exact st1 0 i \<le> median_at exact st1 0 j)
                \<and> (\<forall>j<i. median_at exact st1 0 i < median_at exact st1 0 j)
                \<and> best_name (bestofs s3 1) 0 = fst (alternatives duo ! i)
                \<and> best_method (bestofs s3 1) 0 = Some (snd (alternatives duo ! i))
                \<and> current_alternative (bestofs s3 1) 0 = 0 \<and> current_round (bestofs s3 1) 0 = 1
                \<and> heap s3 = heap (unblock_parent 2 duo_deciding)"
    by (simp add: sid one rounds prune times)
  then obtain i where i: "i < 2" "best_idx (bestofs s3 1) 0 = int i"
      "\<forall>j<i. median_at exact st1 0 i < median_at exact st1 0 j"
      "best_name (bestofs s3 1) 0 = fst (alternatives duo ! i)"
      "best_method (bestofs s3 1) 0 = Some (snd (alternatives duo ! i))"
    by blast
  have "i = 0"
  proof (rule ccontr)
    assume "i \<noteq> 0"
    with i(1) have "i = 1" by simp
    with i(3) have "median_at exact st1 0 1 < median_at exact st1 0 0" by simp
    with med show False by simp
  qed
  with i stack free r times show ?thesis
    by (simp add: s3_def st1_def alts one)
qed

text \<open>
  C3 as stated fails: the selection is not cached permanently. In the recursive use, the
  nested call caches B (index 1); the outer call, which was evaluating B, then records its
  sample, decides again and stores A (index 0) in its place.
\<close>

theorem cached_selection_replaced:
  "best_idx (bestofs recur_cached 1) 0 = 1
   \<and> best_name (bestofs recur_cached 1) 0 = ''B''
   \<and> best_idx (bestofs recur_final 1) 0 = 0
   \<and> best_name (bestofs recur_final 1) 0 = ''A''
   \<and> best_method (bestofs recur_final 1) 0 = Some (Method 0)"
  unfolding recur_cached_def recur_final_def recur_first_def by code_simp


end
